theory Spec2Isabelle
  imports Complex_Main "HOL-Library.Stream" "HOL-Library.Multiset"
begin

section \<open>Synthetic fundraising data of app.py\<close>

text \<open>
  The embedding covers the five data functions of \<^verbatim>\<open>app.py\<close> (lines 10 to 63).
  Conventions:
  \<^item> a date is the number of days of its ordinal (\<open>int\<close>); the value of
    \<^verbatim>\<open>datetime.now().date()\<close> is the argument \<open>today\<close> of each function,
    and \<^verbatim>\<open>timedelta(days=k)\<close> is the integer \<open>k\<close>;
  \<^item> a Python \<^verbatim>\<open>int\<close> is an \<open>int\<close>, a \<^verbatim>\<open>float\<close> is a \<open>real\<close>
    (rounding of IEEE doubles, infinities and NaN are not represented);
  \<^item> an exception is the left injection of a sum type;
  \<^item> the process-wide generator \<^verbatim>\<open>np.random\<close> is an explicit state: a stream of
    raw variates, threaded through every function that draws.
\<close>

subsection \<open>Errors\<close>

datatype error = ValueError | SyntaxError | OutOfBoundsDatetime | KeyError

subsection \<open>The random generator\<close>

text \<open>
  One element of the stream is consumed for each scalar that numpy draws. The raw variate
  is a real number; each distribution maps it into its own support:
  \<^item> \<^verbatim>\<open>randint(low, high)\<close>: an integer of the half-open interval \<open>[low, high)\<close>;
  \<^item> \<^verbatim>\<open>random_sample()\<close>: a double of \<open>[0, 1)\<close>;
  \<^item> \<^verbatim>\<open>uniform(low, high)\<close>: \<open>low + (high - low) * random_sample()\<close>;
  \<^item> \<^verbatim>\<open>lognormal(mean, sigma)\<close>: \<open>exp (mean + sigma * z)\<close> for a normal variate \<open>z\<close>.
\<close>

type_synonym rng = "real stream"

definition to_randint :: "int \<Rightarrow> int \<Rightarrow> real \<Rightarrow> int" where
  "to_randint low high r = low + \<lfloor>r\<rfloor> mod (high - low)"

definition to_random_sample :: "real \<Rightarrow> real" where
  "to_random_sample r = frac r"

definition to_uniform :: "real \<Rightarrow> real \<Rightarrow> real \<Rightarrow> real" where
  "to_uniform low high r = low + (high - low) * to_random_sample r"

definition to_lognormal :: "real \<Rightarrow> real \<Rightarrow> real \<Rightarrow> real" where
  "to_lognormal mean sigma r = exp (mean + sigma * r)"

text \<open>An array of \<open>n\<close> draws takes the next \<open>n\<close> raw variates.\<close>

definition randint :: "int \<Rightarrow> int \<Rightarrow> nat \<Rightarrow> rng \<Rightarrow> int list \<times> rng" where
  "randint low high n g = (map (to_randint low high) (stake n g), sdrop n g)"

definition uniform :: "real \<Rightarrow> real \<Rightarrow> nat \<Rightarrow> rng \<Rightarrow> real list \<times> rng" where
  "uniform low high n g = (map (to_uniform low high) (stake n g), sdrop n g)"

definition lognormal :: "real \<Rightarrow> real \<Rightarrow> nat \<Rightarrow> rng \<Rightarrow> real list \<times> rng" where
  "lognormal mean sigma n g = (map (to_lognormal mean sigma) (stake n g), sdrop n g)"

text \<open>
  \<^verbatim>\<open>ndarray.astype(int)\<close> on a float array truncates towards zero. The integers
  are unbounded here; a float beyond the range of a 64-bit integer, which the two
  log-normal draws of the source do not reach in practice, is not represented.
\<close>

definition astype_int :: "real \<Rightarrow> int" where
  "astype_int x = (if 0 \<le> x then \<lfloor>x\<rfloor> else \<lceil>x\<rceil>)"

subsection \<open>The donor table\<close>

record donor =
  donor_id :: int
  name :: string
  join_date :: int
  total_donations :: int
  total_amount :: int
  avg_donation :: real

text \<open>
  The master DataFrame: its rows, and the column \<^verbatim>\<open>segment\<close>, which does not exist
  until \<^verbatim>\<open>get_donor_segments\<close> assigns it.
\<close>

record donors_df =
  rows :: "donor list"
  segment :: "string list option"

text \<open>The decimal numeral of \<^verbatim>\<open>f'Donor_{i}'\<close>.\<close>

fun str_nat :: "nat \<Rightarrow> string" where
  "str_nat n =
     (if n < 10 then [''0123456789'' ! n]
      else str_nat (n div 10) @ [''0123456789'' ! (n mod 10)])"

declare str_nat.simps [simp del]

text \<open>
  \<^verbatim>\<open>generate_synthetic_donors\<close> (lines 10 to 21). For \<open>n_donors \<le> 0\<close> the ranges
  and the comprehensions of lines 13 to 15 are empty; line 16 asks numpy for an array of
  \<open>n_donors\<close> draws, which raises \<^verbatim>\<open>ValueError\<close> (negative dimensions) when
  \<open>n_donors < 0\<close>. Nothing in the function checks \<open>n_donors\<close> itself.
\<close>

definition generate_synthetic_donors :: "int \<Rightarrow> int \<Rightarrow> rng \<Rightarrow> error + (donors_df \<times> rng)" where
  "generate_synthetic_donors today n_donors g =
     (let n = nat n_donors;
          (days, g1) = randint 30 730 n g
      in if n_donors < 0 then Inl ValueError
         else
           let (tds, g2) = randint 1 50 n g1;
               (tas, g3) = lognormal 4 1.5 n g2
           in Inr (\<lparr>rows = map (\<lambda>i.
                         \<lparr>donor_id = 1001 + int i,
                          name = ''Donor_'' @ str_nat i,
                          join_date = today - days ! i,
                          total_donations = tds ! i,
                          total_amount = astype_int (tas ! i),
                          avg_donation = real_of_int (astype_int (tas ! i)) / real_of_int (tds ! i)\<rparr>)
                       [0..<n],
                    segment = None\<rparr>, g3))"

subsection \<open>Drawing from an array\<close>

text \<open>
  \<^verbatim>\<open>np.random.choice(a, size)\<close>, uniform and with replacement: it raises
  \<^verbatim>\<open>ValueError\<close> on an empty \<open>a\<close> unless no sample is taken, and on a negative
  \<open>size\<close>; otherwise it draws \<open>size\<close> positions with \<^verbatim>\<open>randint(0, len(a))\<close>.
\<close>

definition choice :: "'a list \<Rightarrow> int \<Rightarrow> rng \<Rightarrow> error + ('a list \<times> rng)" where
  "choice a sz g =
     (if a = [] \<and> sz \<noteq> 0 then Inl ValueError
      else if sz < 0 then Inl ValueError
      else let (idx, g') = randint 0 (int (length a)) (nat sz) g
           in Inr (map (\<lambda>i. a ! nat i) idx, g'))"

text \<open>
  \<^verbatim>\<open>np.random.choice(a, size, p=p)\<close>: numpy checks that \<open>p\<close> has the size of
  \<open>a\<close>, has no negative entry and sums to 1 within \<open>sqrt(eps) = 2^-26\<close>, each
  failure a \<^verbatim>\<open>ValueError\<close>. It then normalises the cumulative sums of \<open>p\<close> and, for
  each uniform sample \<open>u\<close>, takes the position \<^verbatim>\<open>cdf.searchsorted(u, side='right')\<close>,
  which on the non-decreasing \<open>cdf\<close> is the number of entries not above \<open>u\<close>.
\<close>

fun cumsum_from :: "real \<Rightarrow> real list \<Rightarrow> real list" where
  "cumsum_from acc [] = []"
| "cumsum_from acc (x # xs) = (acc + x) # cumsum_from (acc + x) xs"

definition cumsum :: "real list \<Rightarrow> real list" where
  "cumsum xs = cumsum_from 0 xs"

definition searchsorted_right :: "real list \<Rightarrow> real \<Rightarrow> nat" where
  "searchsorted_right a v = length (filter (\<lambda>c. c \<le> v) a)"

definition atol :: real where
  "atol = 1 / 2 ^ 26"

definition choice_p :: "'a list \<Rightarrow> int \<Rightarrow> real list \<Rightarrow> rng \<Rightarrow> error + ('a list \<times> rng)" where
  "choice_p a sz p g =
     (if a = [] \<and> sz \<noteq> 0 then Inl ValueError
      else if length p \<noteq> length a then Inl ValueError
      else if list_ex (\<lambda>x. x < 0) p then Inl ValueError
      else if atol < \<bar>sum_list p - 1\<bar> then Inl ValueError
      else if sz < 0 then Inl ValueError
      else let cdf = map (\<lambda>c. c / last (cumsum p)) (cumsum p);
               us = map to_random_sample (stake (nat sz) g)
           in Inr (map (\<lambda>u. a ! searchsorted_right cdf u) us, sdrop (nat sz) g))"

subsection \<open>The text of line 29\<close>

text \<open>
  Python's tokenizer keeps a stack of the open brackets and rejects a closing bracket
  that does not match the innermost open one (\<^verbatim>\<open>SyntaxError\<close>); brackets inside a
  string literal do not count. \<open>nesting\<close> is that check on a piece of source text
  whose literals are in single quotes, as those of line 29 are: the flag tells whether the
  scan is inside a literal, the list is the stack of open brackets.
\<close>

definition closes :: "char \<Rightarrow> char \<Rightarrow> bool" where
  "closes opening c \<longleftrightarrow>
     (opening = CHR ''('' \<and> c = CHR '')'') \<or>
     (opening = CHR ''['' \<and> c = CHR '']'') \<or>
     (opening = CHR ''{'' \<and> c = CHR ''}'')"

fun nesting :: "bool \<Rightarrow> char list \<Rightarrow> string \<Rightarrow> error + char list" where
  "nesting q stack [] = Inr stack"
| "nesting q stack (c # cs) =
     (if c = CHR 0x27 then nesting (\<not> q) stack cs
      else if q then nesting q stack cs
      else if c \<in> set ''([{'' then nesting q (c # stack) cs
      else if c \<in> set '')]}'' then
        (case stack of
           [] \<Rightarrow> Inl SyntaxError
         | opening # rest \<Rightarrow> if closes opening c then nesting q rest cs else Inl SyntaxError)
      else nesting q stack cs)"

text \<open>Line 29 as it is in the file, without its indentation; \<open>CHR 0x27\<close> is the single quote.\<close>

definition line_29 :: string where
  "line_29 =
     [CHR 0x27] @ ''campaign'' @ [CHR 0x27] @ '': np.random.choice(['' @
     [CHR 0x27] @ ''Summer Appeal'' @ [CHR 0x27] @ '', '' @
     [CHR 0x27] @ ''Holiday Drive'' @ [CHR 0x27] @ '', '' @
     [CHR 0x27] @ ''Emergency Fund'' @ [CHR 0x27] @
     ''], num_donations, p=0.5, 0.3, 0.2]),''"

subsection \<open>Donation events\<close>

record event =
  timestamp :: int
  amount :: int
  campaign :: string
  event_donor_id :: int

text \<open>
  A row of the merged frame: the event and the donor's name, which is NaN (\<open>None\<close>)
  when no donor row has the event's id.
\<close>

record donation = event +
  event_name :: "string option"

text \<open>
  \<^verbatim>\<open>pd.date_range(start, periods=n, freq='h')\<close> from a date: \<open>n\<close> timestamps one
  hour apart, the first at midnight of \<open>start\<close>. A timestamp is counted in hours since
  the epoch here; pandas holds it in nanoseconds in a signed 64-bit integer and raises
  \<^verbatim>\<open>OutOfBoundsDatetime\<close> when the start, or the end of the range (the start and
  \<open>n\<close> strides of one hour), is outside it.
\<close>

definition i8max :: int where
  "i8max = 2 ^ 63 - 1"

definition date_range :: "int \<Rightarrow> nat \<Rightarrow> error + int list" where
  "date_range start n =
     (if 24 * start * 3600000000000 < - i8max \<or> i8max < (24 * start + int n) * 3600000000000
      then Inl OutOfBoundsDatetime
      else Inr (map (\<lambda>k. 24 * start + int k) [0..<n]))"

text \<open>
  \<^verbatim>\<open>left.merge(right, on='donor_id', how='left')\<close>: the rows of \<open>left\<close> in their
  order, each once for every row of \<open>right\<close> with the same key (in the order of
  \<open>right\<close>), and once with a missing name when there is none.
\<close>

definition merge_left :: "event list \<Rightarrow> (int \<times> string) list \<Rightarrow> donation list" where
  "merge_left left right =
     concat (map (\<lambda>e.
       let ms = filter (\<lambda>kv. fst kv = event_donor_id e) right
       in if ms = [] then [event.extend e (donation.fields None)]
          else map (\<lambda>kv. event.extend e (donation.fields (Some (snd kv)))) ms) left)"

definition campaigns :: "string list" where
  "campaigns = [''Summer Appeal'', ''Holiday Drive'', ''Emergency Fund'']"

text \<open>
  Line 28, the column of amounts:
  \<^verbatim>\<open>np.random.lognormal(3, 1, num_donations).astype(int) + 5\<close>.
\<close>

definition amounts :: "nat \<Rightarrow> rng \<Rightarrow> int list \<times> rng" where
  "amounts n g = (map (\<lambda>x. astype_int x + 5) (fst (lognormal 3 1 n g)), snd (lognormal 3 1 n g))"

text \<open>
  The body of \<^verbatim>\<open>get_live_donations_data\<close> (lines 25 to 32): \<open>live_frame\<close> is the
  frame \<^verbatim>\<open>pd.DataFrame(data)\<close> of lines 25 to 31, and the body merges it with the
  ids and names of the donor table (line 32). Line 29 of the source
  reads \<^verbatim>\<open>np.random.choice([...], num_donations, p=0.5, 0.3, 0.2])\<close>: the text
  after \<^verbatim>\<open>p=\<close> is not an expression, so the source does not say which value the
  keyword argument has. That value is the parameter \<open>p\<close> here.

  An empty donor table (with a count that is not zero) and a negative count raise in line
  25. The dictionary display of lines 26 to 31 is evaluated in its order: the timestamps,
  then the amounts, then the campaigns.
\<close>

definition live_frame ::
    "real list \<Rightarrow> int \<Rightarrow> donors_df \<Rightarrow> int \<Rightarrow> rng \<Rightarrow> error + (event list \<times> rng)" where
  "live_frame p today df num_donations g =
     (case choice (map donor_id (rows df)) num_donations g of
        Inl e \<Rightarrow> Inl e
      | Inr (donor_ids, g1) \<Rightarrow>
          (case date_range today (nat num_donations) of
             Inl e \<Rightarrow> Inl e
           | Inr timestamps \<Rightarrow>
               let (amts, g2) = amounts (nat num_donations) g1
               in (case choice_p campaigns num_donations p g2 of
                     Inl e \<Rightarrow> Inl e
                   | Inr (cs, g3) \<Rightarrow>
                       Inr (map (\<lambda>i. \<lparr>timestamp = timestamps ! i,
                                        amount = amts ! i,
                                        campaign = cs ! i,
                                        event_donor_id = donor_ids ! i\<rparr>)
                              [0..<nat num_donations], g3))))"

definition get_live_donations_data_body ::
    "real list \<Rightarrow> int \<Rightarrow> donors_df \<Rightarrow> int \<Rightarrow> rng \<Rightarrow> error + (donation list \<times> rng)" where
  "get_live_donations_data_body p today df num_donations g =
     (case live_frame p today df num_donations g of
        Inl e \<Rightarrow> Inl e
      | Inr (events, g3) \<Rightarrow>
          Inr (merge_left events (map (\<lambda>d. (donor_id d, name d)) (rows df)), g3))"

text \<open>
  \<^verbatim>\<open>get_live_donations_data\<close> (lines 23 to 32) as the file has it. Python compiles
  the text of a function before the function can be called, and line 29 is part of this
  text: when the tokenizer rejects it, no function is defined and every call fails with
  the tokenizer's error. Only a text that the tokenizer accepts denotes the body above.
\<close>

definition get_live_donations_data ::
    "real list \<Rightarrow> int \<Rightarrow> donors_df \<Rightarrow> int \<Rightarrow> rng \<Rightarrow> error + (donation list \<times> rng)" where
  "get_live_donations_data p today df num_donations g =
     (case nesting False ''{'' line_29 of
        Inl e \<Rightarrow> Inl e
      | Inr stack \<Rightarrow> get_live_donations_data_body p today df num_donations g)"

text \<open>
  Row \<open>i\<close> of the frame that lines 26 to 31 build from \<open>n\<close> draws of each kind, written
  on the raw variates: the three blocks of \<open>n\<close> variates are those of the donor ids, of
  the amounts and of the campaigns.
\<close>

definition live_event :: "real list \<Rightarrow> int \<Rightarrow> donors_df \<Rightarrow> nat \<Rightarrow> rng \<Rightarrow> nat \<Rightarrow> event" where
  "live_event p today df n g i =
     \<lparr>timestamp = 24 * today + int i,
      amount = astype_int (to_lognormal 3 1 (sdrop n g !! i)) + 5,
      campaign = campaigns ! searchsorted_right (map (\<lambda>c. c / last (cumsum p)) (cumsum p))
                   (to_random_sample (sdrop n (sdrop n g) !! i)),
      event_donor_id =
        map donor_id (rows df) ! nat (to_randint 0 (int (length (rows df))) (g !! i))\<rparr>"

subsection \<open>Segments\<close>

text \<open>
  The first label of line 42 starts with the purple heart U+1F49C, here its four bytes
  in UTF-8, and a space.
\<close>

definition champions :: string where
  "champions = [CHR 0xF0, CHR 0x9F, CHR 0x92, CHR 0x9C] @ '' Champions''"

definition conditions :: "int \<Rightarrow> (donor \<Rightarrow> bool) list" where
  "conditions today =
     [\<lambda>d. total_amount d > 150 \<and> total_donations d > 10,
      \<lambda>d. total_amount d > 50 \<and> join_date d > today - 90,
      \<lambda>d. total_donations d = 1]"

definition choices :: "string list" where
  "choices = [champions, ''Emerging Supporters'', ''One-Time Givers'']"

text \<open>\<^verbatim>\<open>np.select\<close>, row by row: the choice of the first condition that holds, else the default.\<close>

fun np_select :: "('a \<Rightarrow> bool) list \<Rightarrow> 'b list \<Rightarrow> 'b \<Rightarrow> 'a \<Rightarrow> 'b" where
  "np_select (c # cs) (v # vs) dflt x = (if c x then v else np_select cs vs dflt x)"
| "np_select _ _ dflt x = dflt"

text \<open>
  \<^verbatim>\<open>Series.value_counts().reset_index()\<close>: each distinct value (in the order of its
  first occurrence) with the number of its occurrences, sorted by descending count. Values
  with equal counts stay in the order of their first occurrence here; pandas does not
  promise an order for them.
\<close>

definition value_counts :: "string list \<Rightarrow> (string \<times> nat) list" where
  "value_counts xs =
     sort_key (\<lambda>vc. - int (snd vc)) (map (\<lambda>v. (v, count_list xs v)) (rev (remdups (rev xs))))"

text \<open>
  \<^verbatim>\<open>get_donor_segments\<close> (lines 34 to 47). Line 43 assigns the column
  \<^verbatim>\<open>segment\<close> of the caller's frame in place, so the function returns the frame as the
  caller holds it afterwards, next to the table of counts.
\<close>

definition get_donor_segments :: "int \<Rightarrow> donors_df \<Rightarrow> (string \<times> nat) list \<times> donors_df" where
  "get_donor_segments today df =
     (let seg = map (np_select (conditions today) choices ''At-Risk Donors'') (rows df)
      in (value_counts seg, df\<lparr>segment := Some seg\<rparr>))"

subsection \<open>Churn risk\<close>

text \<open>\<^verbatim>\<open>round\<close> of numpy: to the nearest integer, a half to the even neighbour.\<close>

definition rint :: "real \<Rightarrow> int" where
  "rint x = (if frac x = 1 / 2 then (if even \<lfloor>x\<rfloor> then \<lfloor>x\<rfloor> else \<lfloor>x\<rfloor> + 1) else \<lfloor>x + 1 / 2\<rfloor>)"

definition np_round :: "real \<Rightarrow> nat \<Rightarrow> real" where
  "np_round x decimals = real_of_int (rint (x * 10 ^ decimals)) / 10 ^ decimals"

text \<open>\<^verbatim>\<open>DataFrame.head(n)\<close>: the first \<open>n\<close> rows, all but the last \<open>-n\<close> for a negative \<open>n\<close>.\<close>

definition head :: "int \<Rightarrow> 'a list \<Rightarrow> 'a list" where
  "head n xs = (if 0 \<le> n then take (nat n) xs else take (length xs - nat (- n)) xs)"

text \<open>
  A row of the churn table. After line 54 a cell of the first three columns can be
  missing (\<open>None\<close>): assigning a non-empty array as a column of a frame that has no
  row gives the frame one row for each value, with NaN in its other columns.
\<close>

record churn_row =
  churn_name :: "string option"
  churn_join_date :: "int option"
  churn_total_donations :: "int option"
  churn_risk_score :: real
  suggested_action :: string

text \<open>
  \<^verbatim>\<open>get_churn_risk_donors\<close> (lines 49 to 56). The array of scores always has
  \<open>num_at_risk\<close> entries (line 54), the frame of candidates at most as many (line 52);
  pandas raises \<^verbatim>\<open>ValueError\<close> when a column is assigned an array whose length is
  not the number of rows of a non-empty frame. numpy raises \<^verbatim>\<open>ValueError\<close> for a
  negative \<open>size\<close>.
\<close>

definition get_churn_risk_donors ::
    "int \<Rightarrow> donors_df \<Rightarrow> int \<Rightarrow> rng \<Rightarrow> error + (churn_row list \<times> rng)" where
  "get_churn_risk_donors today df num_at_risk g =
     (let at_risk_candidates =
            head num_at_risk
              (sort_key total_donations (filter (\<lambda>d. join_date d < today - 180) (rows df)))
      in if num_at_risk < 0 then Inl ValueError
         else
           let (us, g') = uniform 0.7 0.95 (nat num_at_risk) g;
               scores = map (\<lambda>u. np_round u 2) us
           in if at_risk_candidates = [] \<and> scores \<noteq> [] then
                Inr (map (\<lambda>s. \<lparr>churn_name = None, churn_join_date = None,
                                churn_total_donations = None, churn_risk_score = s,
                                suggested_action = ''Personal Call''\<rparr>) scores, g')
              else if length scores \<noteq> length at_risk_candidates then Inl ValueError
              else
                Inr (map (\<lambda>ds. \<lparr>churn_name = Some (name (fst ds)),
                                 churn_join_date = Some (join_date (fst ds)),
                                 churn_total_donations = Some (total_donations (fst ds)),
                                 churn_risk_score = snd ds,
                                 suggested_action = ''Personal Call''\<rparr>)
                       (zip at_risk_candidates scores), g'))"

subsection \<open>Nudges\<close>

text \<open>
  \<^verbatim>\<open>np.random.permutation(n)\<close> shuffles \<^verbatim>\<open>arange(n)\<close>: for \<open>i\<close> from
  \<open>n - 1\<close> down to 1 it draws \<open>j\<close> in \<open>[0, i]\<close> and swaps the entries \<open>i\<close> and \<open>j\<close>.
\<close>

fun shuffle :: "nat \<Rightarrow> nat list \<Rightarrow> rng \<Rightarrow> nat list \<times> rng" where
  "shuffle 0 x g = (x, g)"
| "shuffle (Suc k) x g =
     (let j = nat (to_randint 0 (int (Suc k) + 1) (shd g))
      in shuffle k (x[Suc k := x ! j, j := x ! Suc k]) (stl g))"

definition permutation :: "nat \<Rightarrow> rng \<Rightarrow> nat list \<times> rng" where
  "permutation n g = shuffle (n - 1) [0..<n] g"

text \<open>
  \<^verbatim>\<open>DataFrame.sample(n)\<close>, without replacement: \<^verbatim>\<open>ValueError\<close> for a negative
  \<open>n\<close> and for an \<open>n\<close> above the number of rows; otherwise the rows at the first
  \<open>n\<close> positions of a permutation, each with its index label.
\<close>

definition sample :: "'a list \<Rightarrow> int \<Rightarrow> rng \<Rightarrow> error + ((nat \<times> 'a) list \<times> rng)" where
  "sample xs n g =
     (if n < 0 then Inl ValueError
      else if int (length xs) < n then Inl ValueError
      else let (perm, g') = permutation (length xs) g
           in Inr (map (\<lambda>i. (i, xs ! i)) (take (nat n) perm), g'))"

record nudge =
  nudge_index :: nat
  nudge_name :: string
  nudge_avg_donation :: real
  suggested_ask :: real
  suggested_channel :: string

definition channels :: "string list" where
  "channels = [''Email'', ''Targeted Ad'', ''SMS'']"

text \<open>
  \<^verbatim>\<open>get_donation_nudges\<close> (lines 58 to 63). The sampled frame and the array of
  channels both have \<open>num_nudges\<close> entries, so the assignment of line 62 fits.
\<close>

definition get_donation_nudges :: "donors_df \<Rightarrow> int \<Rightarrow> rng \<Rightarrow> error + (nudge list \<times> rng)" where
  "get_donation_nudges df num_nudges g =
     (case sample (rows df) num_nudges g of
        Inl e \<Rightarrow> Inl e
      | Inr (nudge_candidates, g1) \<Rightarrow>
          (case choice channels num_nudges g1 of
             Inl e \<Rightarrow> Inl e
           | Inr (chs, g2) \<Rightarrow>
               Inr (map (\<lambda>k.
                      \<lparr>nudge_index = fst (nudge_candidates ! k),
                       nudge_name = name (snd (nudge_candidates ! k)),
                       nudge_avg_donation = avg_donation (snd (nudge_candidates ! k)),
                       suggested_ask =
                         real_of_int (rint (avg_donation (snd (nudge_candidates ! k)) * 1.25)),
                       suggested_channel = chs ! k\<rparr>)
                    [0..<length nudge_candidates], g2)))"

subsection \<open>Frames as objects\<close>

text \<open>
  A DataFrame is an object, and a function is given the caller's donor table by
  reference. To say which object a statement writes to, the frames are held in a store:
  a call of a function takes the address of the donor table and the store, and returns
  the store as it is after the call, next to the address of the frame that the function
  returns (or the error that it raises). An operation of pandas that returns a frame
  (a selection by a mask or by column names, \<^verbatim>\<open>sort_values\<close>, \<^verbatim>\<open>head\<close>,
  \<^verbatim>\<open>sample\<close>, \<^verbatim>\<open>copy\<close>, \<^verbatim>\<open>merge\<close>, \<^verbatim>\<open>reset_index\<close>, the
  constructor) makes a new object; an assignment \<^verbatim>\<open>frame[column] = values\<close> writes
  into the object that the variable refers to. Only the frames that a variable of the
  source names, and the frame it returns, are given an address; the arrays of numpy are
  not objects here.

  The kinds of frames, by their columns: the donor table; a frame with the columns of the
  donor table and its index labels (a row of NaN is \<open>None\<close>); the same with the score,
  and with the score and the action; with the ask, and with the ask and the channel; and
  the frames that the functions return. (A frame made from the donor table carries the
  column \<^verbatim>\<open>segment\<close> along when the table has it; no function reads it there, and
  it is left out of these frames.)
\<close>

datatype table =
    Donors donors_df
  | Rows "(nat \<times> donor option) list"
  | Scored "((nat \<times> donor option) \<times> real) list"
  | Actioned "((nat \<times> donor option) \<times> real \<times> string) list"
  | Asked "((nat \<times> donor option) \<times> real) list"
  | Channelled "((nat \<times> donor option) \<times> real \<times> string) list"
  | Churn "churn_row list"
  | Nudges "nudge list"
  | Events "event list"
  | Donations "donation list"
  | Counts "(string \<times> nat) list"

record store =
  objs :: "nat \<Rightarrow> table option"
  fresh :: nat

text \<open>Every address from \<open>fresh\<close> on is free.\<close>

definition store_ok :: "store \<Rightarrow> bool" where
  "store_ok s \<longleftrightarrow> (\<forall>k. fresh s \<le> k \<longrightarrow> objs s k = None)"

definition alloc :: "table \<Rightarrow> store \<Rightarrow> nat \<times> store" where
  "alloc t s = (fresh s, \<lparr>objs = (objs s)(fresh s \<mapsto> t), fresh = Suc (fresh s)\<rparr>)"

definition assign :: "nat \<Rightarrow> table \<Rightarrow> store \<Rightarrow> store" where
  "assign a t s = s\<lparr>objs := (objs s)(a \<mapsto> t)\<rparr>"

text \<open>
  \<^verbatim>\<open>get_donor_segments\<close>: line 43 writes the column into the donor table itself;
  line 45 makes the frame of counts and line 46 names its columns, in place.
\<close>

definition get_donor_segments_call :: "int \<Rightarrow> nat \<Rightarrow> store \<Rightarrow> (error + nat) \<times> store" where
  "get_donor_segments_call today donors_df s =
     (case objs s donors_df of
        Some (Donors df) \<Rightarrow>
          let seg = map (np_select (conditions today) choices ''At-Risk Donors'') (rows df);
              s1 = assign donors_df (Donors (df\<lparr>segment := Some seg\<rparr>)) s;
              (segment_counts, s2) = alloc (Counts (value_counts seg)) s1;
              s3 = assign segment_counts (Counts (value_counts seg)) s2
          in (Inr segment_counts, s3)
      | _ \<Rightarrow> (Inl KeyError, s))"

text \<open>
  The assignment of line 54 on the frame of candidates: it enlarges a frame without rows
  to one row of NaN for each score, raises on another difference of the lengths, and
  attaches the scores otherwise.
\<close>

definition set_scores ::
    "(nat \<times> donor option) list \<Rightarrow> real list \<Rightarrow> error + ((nat \<times> donor option) \<times> real) list" where
  "set_scores cands scores =
     (if cands = [] \<and> scores \<noteq> [] then
        Inr (zip (map (\<lambda>k. (k, None)) [0..<length scores]) scores)
      else if length scores \<noteq> length cands then Inl ValueError
      else Inr (zip cands scores))"

text \<open>The five columns that line 56 selects from a row of the frame of candidates.\<close>

definition churn_of :: "((nat \<times> donor option) \<times> real) \<Rightarrow> churn_row" where
  "churn_of ds =
     \<lparr>churn_name = map_option name (snd (fst ds)),
      churn_join_date = map_option join_date (snd (fst ds)),
      churn_total_donations = map_option total_donations (snd (fst ds)),
      churn_risk_score = snd ds, suggested_action = ''Personal Call''\<rparr>"

text \<open>
  \<^verbatim>\<open>DataFrame.sort_values(column)\<close> takes the rows at the positions that
  \<^verbatim>\<open>argsort\<close> of numpy returns for the column. The default kind of sort is
  \<^verbatim>\<open>quicksort\<close>, which does not promise an order among rows of equal key, and
  the order it gives depends on the build of numpy; so \<open>argsort\<close> is an argument here.
  \<open>argsort_stable\<close> is the one that keeps rows of equal key in the order of the frame:
  with it, \<open>sort_values\<close> is \<open>sort_key\<close> (lemma \<open>sort_values_stable\<close>).
\<close>

definition sort_values :: "(int list \<Rightarrow> nat list) \<Rightarrow> ('a \<Rightarrow> int) \<Rightarrow> 'a list \<Rightarrow> 'a list" where
  "sort_values argsort column xs = map (\<lambda>i. xs ! i) (argsort (map column xs))"

definition argsort_stable :: "int list \<Rightarrow> nat list" where
  "argsort_stable ks = map fst (sort_key snd (zip [0..<length ks] ks))"

text \<open>
  \<^verbatim>\<open>get_churn_risk_donors\<close>: line 52 makes the frame of candidates, line 53 a copy
  of it, to which the name \<^verbatim>\<open>at_risk_candidates\<close> refers from then on; lines 54
  and 55 write two columns into the copy; line 56 returns a new frame of five columns.
  The index label of a candidate is its position in the donor table.
\<close>

definition get_churn_risk_donors_call ::
    "(int list \<Rightarrow> nat list) \<Rightarrow> int \<Rightarrow> nat \<Rightarrow> int \<Rightarrow> rng \<Rightarrow> store \<Rightarrow>
     (error + (nat \<times> rng)) \<times> store" where
  "get_churn_risk_donors_call argsort today donors_df num_at_risk g s =
     (case objs s donors_df of
        Some (Donors df) \<Rightarrow>
          let cands = head num_at_risk (sort_values argsort (\<lambda>kd. total_donations (snd kd))
                        (filter (\<lambda>kd. join_date (snd kd) < today - 180)
                           (zip [0..<length (rows df)] (rows df))));
              (selected, s1) = alloc (Rows (map (\<lambda>kd. (fst kd, Some (snd kd))) cands)) s;
              (at_risk_candidates, s2) = alloc (Rows (map (\<lambda>kd. (fst kd, Some (snd kd))) cands)) s1
          in if num_at_risk < 0 then (Inl ValueError, s2)
             else
               let (us, g') = uniform 0.7 0.95 (nat num_at_risk) g
               in (case set_scores (map (\<lambda>kd. (fst kd, Some (snd kd))) cands)
                          (map (\<lambda>u. np_round u 2) us) of
                     Inl e \<Rightarrow> (Inl e, s2)
                   | Inr scored \<Rightarrow>
                       let s3 = assign at_risk_candidates (Scored scored) s2;
                           s4 = assign at_risk_candidates
                                  (Actioned (map (\<lambda>ds. (fst ds, snd ds, ''Personal Call'')) scored)) s3;
                           (result, s5) =
                             alloc (Churn (map churn_of scored)) s4
                       in (Inr (result, g'), s5))
      | _ \<Rightarrow> (Inl KeyError, s))"

text \<open>
  \<^verbatim>\<open>get_donation_nudges\<close>: line 60 samples a frame and copies it; lines 61 and 62
  write two columns into the copy; line 63 returns a new frame of four columns.
\<close>

definition get_donation_nudges_call ::
    "nat \<Rightarrow> int \<Rightarrow> rng \<Rightarrow> store \<Rightarrow> (error + (nat \<times> rng)) \<times> store" where
  "get_donation_nudges_call donors_df num_nudges g s =
     (case objs s donors_df of
        Some (Donors df) \<Rightarrow>
          (case sample (rows df) num_nudges g of
             Inl e \<Rightarrow> (Inl e, s)
           | Inr (sampled, g1) \<Rightarrow>
               let (taken, s1) = alloc (Rows (map (\<lambda>kd. (fst kd, Some (snd kd))) sampled)) s;
                   (nudge_candidates, s2) =
                     alloc (Rows (map (\<lambda>kd. (fst kd, Some (snd kd))) sampled)) s1;
                   asked = map (\<lambda>kd. ((fst kd, Some (snd kd)),
                                  real_of_int (rint (avg_donation (snd kd) * 1.25)))) sampled;
                   s3 = assign nudge_candidates (Asked asked) s2
               in (case choice channels num_nudges g1 of
                     Inl e \<Rightarrow> (Inl e, s3)
                   | Inr (chs, g2) \<Rightarrow>
                       let s4 = assign nudge_candidates
                                  (Channelled (map (\<lambda>k. (fst (asked ! k), snd (asked ! k), chs ! k))
                                     [0..<length asked])) s3;
                           (result, s5) =
                             alloc (Nudges (map (\<lambda>k.
                                      \<lparr>nudge_index = fst (sampled ! k),
                                       nudge_name = name (snd (sampled ! k)),
                                       nudge_avg_donation = avg_donation (snd (sampled ! k)),
                                       suggested_ask = snd (asked ! k),
                                       suggested_channel = chs ! k\<rparr>)
                                    [0..<length sampled])) s4
                       in (Inr (result, g2), s5)))
      | _ \<Rightarrow> (Inl KeyError, s))"

text \<open>
  \<^verbatim>\<open>get_live_donations_data\<close>: the body makes the frame of events (lines 26 to 32)
  and returns its merge with the ids and names of the donor table, a new frame; it writes
  into no frame. The function as the file has it fails before its body, as above.
\<close>

definition get_live_donations_data_body_call ::
    "real list \<Rightarrow> int \<Rightarrow> nat \<Rightarrow> int \<Rightarrow> rng \<Rightarrow> store \<Rightarrow> (error + (nat \<times> rng)) \<times> store" where
  "get_live_donations_data_body_call p today donors_df num_donations g s =
     (case objs s donors_df of
        Some (Donors df) \<Rightarrow>
          (case live_frame p today df num_donations g of
             Inl e \<Rightarrow> (Inl e, s)
           | Inr (events, g3) \<Rightarrow>
               let (data, s1) = alloc (Events events) s;
                   (result, s2) =
                     alloc (Donations (merge_left events
                              (map (\<lambda>d. (donor_id d, name d)) (rows df)))) s1
               in (Inr (result, g3), s2))
      | _ \<Rightarrow> (Inl KeyError, s))"

definition get_live_donations_data_call ::
    "real list \<Rightarrow> int \<Rightarrow> nat \<Rightarrow> int \<Rightarrow> rng \<Rightarrow> store \<Rightarrow> (error + (nat \<times> rng)) \<times> store" where
  "get_live_donations_data_call p today donors_df num_donations g s =
     (case nesting False ''{'' line_29 of
        Inl e \<Rightarrow> (Inl e, s)
      | Inr stack \<Rightarrow> get_live_donations_data_body_call p today donors_df num_donations g s)"

section \<open>Properties\<close>

subsection \<open>Facts about the generator\<close>

lemma to_randint_range:
  assumes "low < high"
  shows "low \<le> to_randint low high r \<and> to_randint low high r < high"
proof -
  have "0 < high - low" using assms by simp
  then have "0 \<le> \<lfloor>r\<rfloor> mod (high - low) \<and> \<lfloor>r\<rfloor> mod (high - low) < high - low"
    by (simp add: pos_mod_sign pos_mod_bound)
  then show ?thesis by (simp add: to_randint_def)
qed

lemma to_lognormal_pos: "0 < to_lognormal mean sigma r"
  by (simp add: to_lognormal_def)

lemma astype_int_nonneg: "0 \<le> x \<Longrightarrow> 0 \<le> astype_int x"
  by (simp add: astype_int_def)

lemma randint_length: "length (fst (randint low high n g)) = n"
  by (simp add: randint_def)

lemma lognormal_length: "length (fst (lognormal mean sigma n g)) = n"
  by (simp add: lognormal_def)

lemma map_offset_upt: "map (\<lambda>i. a + int i) [0..<k] = [a..a + int k - 1]"
proof (induction k)
  case 0
  then show ?case by simp
next
  case (Suc k)
  have "[a..a + int (Suc k) - 1] = [a..a + int k - 1] @ [a + int k]"
    using upto_rec2 [of a "a + int k"] by simp
  with Suc show ?case by simp
qed

subsection \<open>The donor generator\<close>

text \<open>
  For a count that is not negative the generator returns a table; row \<open>i\<close> is built from
  raw variate \<open>i\<close> of each of the three blocks of \<open>n\<close> draws.
\<close>

lemma generate_rows:
  assumes "0 \<le> n"
  shows "generate_synthetic_donors today n g =
    Inr (\<lparr>rows = map (\<lambda>i.
            \<lparr>donor_id = 1001 + int i,
             name = ''Donor_'' @ str_nat i,
             join_date = today - to_randint 30 730 (g !! i),
             total_donations = to_randint 1 50 (sdrop (nat n) g !! i),
             total_amount = astype_int (to_lognormal 4 1.5 (sdrop (nat n) (sdrop (nat n) g) !! i)),
             avg_donation =
               real_of_int (astype_int (to_lognormal 4 1.5 (sdrop (nat n) (sdrop (nat n) g) !! i)))
                 / real_of_int (to_randint 1 50 (sdrop (nat n) g !! i))\<rparr>) [0..<nat n],
           segment = None\<rparr>, sdrop (nat n) (sdrop (nat n) (sdrop (nat n) g)))"
  using assms
  by (simp add: generate_synthetic_donors_def randint_def lognormal_def Let_def stake_nth
      del: sdrop_add)

lemma generate_negative: "n < 0 \<Longrightarrow> generate_synthetic_donors today n g = Inl ValueError"
  by (simp add: generate_synthetic_donors_def randint_def)

text \<open>
  Claim C4. For every positive count \<open>n\<close> the generator returns a table of exactly
  \<open>n\<close> donors whose ids are 1001, 1002, ... up to \<open>1000 + n\<close> in this order (so they
  are distinct and contiguous); every donor has a number of donations from 1 to 49, a
  total amount that is not negative, and an average donation that is the quotient of the
  two, with a divisor that is not zero, and is not negative.
\<close>

theorem generate_synthetic_donors_records:
  assumes "0 < n"
  shows "\<exists>df g'. generate_synthetic_donors today n g = Inr (df, g') \<and>
     length (rows df) = nat n \<and>
     map donor_id (rows df) = [1001..1000 + n] \<and>
     distinct (map donor_id (rows df)) \<and>
     (\<forall>d \<in> set (rows df).
        1 \<le> total_donations d \<and> total_donations d < 50 \<and> 0 \<le> total_amount d \<and>
        avg_donation d = real_of_int (total_amount d) / real_of_int (total_donations d) \<and>
        0 \<le> avg_donation d)"
proof -
  have n: "0 \<le> n" using assms by simp
  have ids: "map (\<lambda>i. 1001 + int i) [0..<nat n] = [1001..1000 + n]"
    using map_offset_upt [of 1001 "nat n"] assms by simp
  have r: "1 \<le> to_randint 1 50 x \<and> to_randint 1 50 x < 50" for x
    using to_randint_range [of 1 50 x] by simp
  have a: "0 \<le> astype_int (to_lognormal 4 1.5 x)" for x
    by (rule astype_int_nonneg) (simp add: less_imp_le to_lognormal_pos)
  have q: "0 \<le> real_of_int (astype_int (to_lognormal 4 1.5 x)) / real_of_int (to_randint 1 50 y)"
    for x y
    using a [of x] r [of y] by (intro divide_nonneg_nonneg) simp_all
  let ?df = "fst (projr (generate_synthetic_donors today n g))"
  have "length (rows ?df) = nat n"
    by (simp add: generate_rows [OF n])
  moreover have "map donor_id (rows ?df) = [1001..1000 + n]"
    by (simp add: generate_rows [OF n] comp_def ids)
  moreover have "distinct (map donor_id (rows ?df))"
    by (simp add: generate_rows [OF n] comp_def ids)
  moreover have "\<forall>d \<in> set (rows ?df).
        1 \<le> total_donations d \<and> total_donations d < 50 \<and> 0 \<le> total_amount d \<and>
        avg_donation d = real_of_int (total_amount d) / real_of_int (total_donations d) \<and>
        0 \<le> avg_donation d"
    using r a q by (auto simp: generate_rows [OF n])
  moreover have "\<exists>g'. generate_synthetic_donors today n g = Inr (?df, g')"
    by (simp add: generate_rows [OF n])
  ultimately show ?thesis by blast
qed

text \<open>The theorem at the count 2: two donors, 1001 and 1002, the first with at least one donation.\<close>

theorem generate_synthetic_donors_records_witness:
  "0 < (2::int) \<and>
   (\<exists>df g'. generate_synthetic_donors 20000 2 (sconst 0) = Inr (df, g') \<and>
      map donor_id (rows df) = [1001, 1002] \<and> length (rows df) = 2 \<and>
      1 \<le> total_donations (hd (rows df)))"
proof -
  have pos: "0 < (2::int)" by simp
  from generate_synthetic_donors_records [OF pos, of 20000 "sconst 0"] obtain df g' where
    *: "generate_synthetic_donors 20000 2 (sconst 0) = Inr (df, g')" "length (rows df) = nat 2"
      "map donor_id (rows df) = [1001..1000 + 2]"
      "\<forall>d \<in> set (rows df). 1 \<le> total_donations d \<and> total_donations d < 50 \<and>
        0 \<le> total_amount d \<and>
        avg_donation d = real_of_int (total_amount d) / real_of_int (total_donations d) \<and>
        0 \<le> avg_donation d"
    by blast
  from *(2) have "rows df \<noteq> []" by auto
  then have "hd (rows df) \<in> set (rows df)" by simp
  with *(4) have "1 \<le> total_donations (hd (rows df))" by blast
  moreover have "[1001..1000 + 2] = [1001, 1002::int]" by (simp add: upto.simps)
  ultimately show ?thesis using * by auto
qed

text \<open>
  Claim C9, as amended. The generator fails, with \<^verbatim>\<open>ValueError\<close>, exactly when
  the count is negative, and returns a table exactly when the count is zero or more: no
  positive count raises, and neither does the count zero.
\<close>

theorem generate_synthetic_donors_error_iff:
  "(generate_synthetic_donors today n g = Inl ValueError) = (n < 0) \<and>
   (\<exists>df g'. generate_synthetic_donors today n g = Inr (df, g')) = (0 \<le> n)"
proof (cases "n < 0")
  case True
  then show ?thesis by (simp add: generate_negative)
next
  case False
  then have "0 \<le> n" by simp
  then show ?thesis by (simp add: generate_rows)
qed

text \<open>The count \<open>-1\<close> raises, the count 3 does not.\<close>

theorem generate_synthetic_donors_error_iff_witness:
  "generate_synthetic_donors 20000 (- 1) (sconst 0) = Inl ValueError \<and>
   (\<exists>df g'. generate_synthetic_donors 20000 3 (sconst 0) = Inr (df, g'))"
  using generate_synthetic_donors_error_iff [of 20000 "- 1" "sconst 0"]
    generate_synthetic_donors_error_iff [of 20000 3 "sconst 0"]
  by simp

text \<open>
  Claim C9 as stated fails at the count zero, which is \<open>\<le> 0\<close>: the generator returns
  the empty table and raises nothing.
\<close>

theorem generate_synthetic_donors_zero_count:
  "generate_synthetic_donors 20000 0 (sconst 0) = Inr (\<lparr>rows = [], segment = None\<rparr>, sconst 0)"
  by (simp add: generate_rows)

subsection \<open>Segments\<close>

lemma np_select_rules:
  "np_select (conditions today) choices ''At-Risk Donors'' d =
     (if total_amount d > 150 \<and> total_donations d > 10 then champions
      else if total_amount d > 50 \<and> join_date d > today - 90 then ''Emerging Supporters''
      else if total_donations d = 1 then ''One-Time Givers''
      else ''At-Risk Donors'')"
  by (simp add: conditions_def choices_def)

lemma get_donor_segments_eq:
  "get_donor_segments today df =
     (value_counts (map (np_select (conditions today) choices ''At-Risk Donors'') (rows df)),
      df\<lparr>segment := Some (map (np_select (conditions today) choices ''At-Risk Donors'') (rows df))\<rparr>)"
  by (simp add: get_donor_segments_def Let_def)

lemma sum_list_snd_sort_key:
  "sum_list (map snd (sort_key f xs)) = sum_list (map (snd :: 'a \<times> nat \<Rightarrow> nat) xs)"
proof -
  have "mset (map snd (sort_key f xs)) = mset (map snd xs)"
    by simp
  then show ?thesis
    by (metis sum_mset_sum_list)
qed

lemma value_counts_sum: "sum_list (map snd (value_counts xs)) = length xs"
proof -
  let ?ys = "rev (remdups (rev xs))"
  have d: "distinct ?ys" by simp
  have "sum_list (map snd (value_counts xs)) = sum_list (map (count_list xs) ?ys)"
    by (simp add: value_counts_def sum_list_snd_sort_key comp_def)
  also have "\<dots> = sum (count_list xs) (set xs)"
    using sum.distinct_set_conv_list [OF d, of "count_list xs"] by simp
  also have "\<dots> = length xs"
    by (rule sum_count_set) simp_all
  finally show ?thesis .
qed

lemma value_counts_keys:
  "distinct (map fst (value_counts xs)) \<and> set (map fst (value_counts xs)) = set xs"
proof -
  have "mset (map fst (value_counts xs)) = mset (rev (remdups (rev xs)))"
    by (simp add: value_counts_def multiset.map_comp comp_def)
  then show ?thesis
    by (metis distinct_remdups distinct_rev mset_eq_setD mset_eq_imp_distinct_iff set_remdups set_rev)
qed

lemma value_counts_count: "(v, c) \<in> set (value_counts xs) \<Longrightarrow> c = count_list xs v"
  by (auto simp: value_counts_def)

text \<open>
  Claim C3, as amended. The label of every donor is decided by the first rule that
  holds, in this order: total amount above 150 and more than 10 donations gives the
  label of line 42, which is the purple heart, a space and \<open>Champions\<close>; else total
  amount above 50 and a join date after the day 90 days before today gives
  \<open>Emerging Supporters\<close>; else exactly one donation gives \<open>One-Time Givers\<close>; else
  \<open>At-Risk Donors\<close>. Every label is one of these four strings.
\<close>

theorem get_donor_segments_labels:
  "\<exists>seg. segment (snd (get_donor_segments today df)) = Some seg \<and>
     seg = map (\<lambda>d. if total_amount d > 150 \<and> total_donations d > 10 then champions
                     else if total_amount d > 50 \<and> join_date d > today - 90
                          then ''Emerging Supporters''
                     else if total_donations d = 1 then ''One-Time Givers''
                     else ''At-Risk Donors'') (rows df) \<and>
     set seg \<subseteq> {champions, ''Emerging Supporters'', ''One-Time Givers'', ''At-Risk Donors''}"
  by (auto simp: get_donor_segments_eq np_select_rules)

text \<open>Four donors, one for each rule.\<close>

theorem get_donor_segments_labels_witness:
  "segment (snd (get_donor_segments 20000
      \<lparr>rows = [\<lparr>donor_id = 1001, name = ''Donor_0'', join_date = 19500, total_donations = 11,
                 total_amount = 200, avg_donation = 200 / 11\<rparr>,
               \<lparr>donor_id = 1002, name = ''Donor_1'', join_date = 19950, total_donations = 4,
                 total_amount = 60, avg_donation = 15\<rparr>,
               \<lparr>donor_id = 1003, name = ''Donor_2'', join_date = 19500, total_donations = 1,
                 total_amount = 20, avg_donation = 20\<rparr>,
               \<lparr>donor_id = 1004, name = ''Donor_3'', join_date = 19500, total_donations = 4,
                 total_amount = 60, avg_donation = 15\<rparr>],
        segment = None\<rparr>)) =
   Some [champions, ''Emerging Supporters'', ''One-Time Givers'', ''At-Risk Donors'']"
  using get_donor_segments_labels [of 20000
      "\<lparr>rows = [\<lparr>donor_id = 1001, name = ''Donor_0'', join_date = 19500, total_donations = 11,
                 total_amount = 200, avg_donation = 200 / 11\<rparr>,
               \<lparr>donor_id = 1002, name = ''Donor_1'', join_date = 19950, total_donations = 4,
                 total_amount = 60, avg_donation = 15\<rparr>,
               \<lparr>donor_id = 1003, name = ''Donor_2'', join_date = 19500, total_donations = 1,
                 total_amount = 20, avg_donation = 20\<rparr>,
               \<lparr>donor_id = 1004, name = ''Donor_3'', join_date = 19500, total_donations = 4,
                 total_amount = 60, avg_donation = 15\<rparr>],
        segment = None\<rparr>"]
  by simp

text \<open>
  Claim C3 as stated fails for a donor of the first rule: the label is not the string
  \<open>Champions\<close>.
\<close>

theorem champions_label_counterexample:
  "segment (snd (get_donor_segments 20000
      \<lparr>rows = [\<lparr>donor_id = 1001, name = ''Donor_0'', join_date = 19500, total_donations = 11,
                 total_amount = 200, avg_donation = 200 / 11\<rparr>],
        segment = None\<rparr>)) \<noteq> Some [''Champions'']"
  by (simp add: get_donor_segments_eq np_select_rules champions_def)

text \<open>
  Claim C7. Segmentation is total and partitions the donors: the column of labels has one
  label for each donor; the table of counts has each label that occurs exactly once, with
  the number of donors that carry it; and the counts add up to the number of donors.
\<close>

theorem get_donor_segments_partition:
  "\<exists>seg. segment (snd (get_donor_segments today df)) = Some seg \<and>
     length seg = length (rows df) \<and>
     distinct (map fst (fst (get_donor_segments today df))) \<and>
     set (map fst (fst (get_donor_segments today df))) = set seg \<and>
     (\<forall>vc \<in> set (fst (get_donor_segments today df)). snd vc = count_list seg (fst vc)) \<and>
     sum_list (map snd (fst (get_donor_segments today df))) = length (rows df)"
  using value_counts_keys value_counts_count
  by (auto simp: get_donor_segments_eq value_counts_sum simp del: set_map)

text \<open>Three donors, two of them at risk: the counts are 2 and 1.\<close>

theorem get_donor_segments_partition_witness:
  "fst (get_donor_segments 20000
      \<lparr>rows = [\<lparr>donor_id = 1001, name = ''Donor_0'', join_date = 19500, total_donations = 4,
                 total_amount = 60, avg_donation = 15\<rparr>,
               \<lparr>donor_id = 1002, name = ''Donor_1'', join_date = 19500, total_donations = 11,
                 total_amount = 200, avg_donation = 200 / 11\<rparr>,
               \<lparr>donor_id = 1003, name = ''Donor_2'', join_date = 19500, total_donations = 4,
                 total_amount = 60, avg_donation = 15\<rparr>],
        segment = None\<rparr>) = [(''At-Risk Donors'', 2), (champions, 1)] \<and>
   sum_list (map snd (fst (get_donor_segments 20000
      \<lparr>rows = [\<lparr>donor_id = 1001, name = ''Donor_0'', join_date = 19500, total_donations = 4,
                 total_amount = 60, avg_donation = 15\<rparr>,
               \<lparr>donor_id = 1002, name = ''Donor_1'', join_date = 19500, total_donations = 11,
                 total_amount = 200, avg_donation = 200 / 11\<rparr>,
               \<lparr>donor_id = 1003, name = ''Donor_2'', join_date = 19500, total_donations = 4,
                 total_amount = 60, avg_donation = 15\<rparr>],
        segment = None\<rparr>))) = 3"
  using get_donor_segments_partition [of 20000
      "\<lparr>rows = [\<lparr>donor_id = 1001, name = ''Donor_0'', join_date = 19500, total_donations = 4,
                 total_amount = 60, avg_donation = 15\<rparr>,
               \<lparr>donor_id = 1002, name = ''Donor_1'', join_date = 19500, total_donations = 11,
                 total_amount = 200, avg_donation = 200 / 11\<rparr>,
               \<lparr>donor_id = 1003, name = ''Donor_2'', join_date = 19500, total_donations = 4,
                 total_amount = 60, avg_donation = 15\<rparr>],
        segment = None\<rparr>"]
  by (simp add: get_donor_segments_eq np_select_rules value_counts_def champions_def)

subsection \<open>Drawing from an array\<close>

lemma to_random_sample_range: "0 \<le> to_random_sample r \<and> to_random_sample r < 1"
  by (simp add: to_random_sample_def frac_lt_1)

lemma choice_eq:
  assumes "0 \<le> m" "a \<noteq> [] \<or> m = 0"
  shows "choice a m g =
     Inr (map (\<lambda>r. a ! nat (to_randint 0 (int (length a)) r)) (stake (nat m) g), sdrop (nat m) g)"
  using assms by (auto simp: choice_def randint_def comp_def)

lemma choice_error: "m < 0 \<or> (a = [] \<and> m \<noteq> 0) \<Longrightarrow> choice a m g = Inl ValueError"
  by (auto simp: choice_def)

lemma choice_member:
  assumes "a \<noteq> []"
  shows "a ! nat (to_randint 0 (int (length a)) r) \<in> set a"
proof -
  have "0 \<le> to_randint 0 (int (length a)) r \<and> to_randint 0 (int (length a)) r < int (length a)"
    using assms by (intro to_randint_range) simp
  then have "nat (to_randint 0 (int (length a)) r) < length a" by linarith
  then show ?thesis by (rule nth_mem)
qed

subsection \<open>Donation events\<close>

text \<open>
  The weighted draw: the normalised cumulative sums end in 1, which is above every uniform
  sample, so the position found is a position of the array. numpy accepts a weight vector
  of the right size without a negative entry whose sum is within \<open>atol\<close> of 1, and
  rejects a sum that is further away.
\<close>

lemma cumsum_from_length: "length (cumsum_from acc xs) = length xs"
  by (induction xs arbitrary: acc) simp_all

lemma cumsum_from_last: "xs \<noteq> [] \<Longrightarrow> last (cumsum_from acc xs) = acc + sum_list xs"
proof (induction xs arbitrary: acc)
  case Nil
  then show ?case by simp
next
  case (Cons x xs)
  show ?case
  proof (cases "xs = []")
    case True
    then show ?thesis by simp
  next
    case False
    then have "cumsum_from (acc + x) xs \<noteq> []"
      by (metis cumsum_from_length length_0_conv)
    with Cons.IH [OF False, of "acc + x"] show ?thesis by simp
  qed
qed

lemma searchsorted_position:
  assumes "p \<noteq> []" "0 < sum_list p" "u < 1"
  shows "searchsorted_right (map (\<lambda>c. c / last (cumsum p)) (cumsum p)) u < length p"
proof -
  let ?cdf = "map (\<lambda>c. c / last (cumsum p)) (cumsum p)"
  have len: "length ?cdf = length p"
    by (simp add: cumsum_def cumsum_from_length)
  have ne: "cumsum p \<noteq> []"
    using assms(1) by (metis cumsum_def cumsum_from_length length_0_conv)
  have l: "last (cumsum p) = sum_list p"
    using cumsum_from_last [OF assms(1), of 0] by (simp add: cumsum_def)
  have "last ?cdf = last (cumsum p) / last (cumsum p)"
    using ne by (simp add: last_map)
  then have one: "last ?cdf = 1"
    using l assms(2) by simp
  have "last ?cdf \<in> set ?cdf"
    using ne by (intro last_in_set) simp
  moreover have "\<not> last ?cdf \<le> u"
    using one assms(3) by simp
  ultimately have "length (filter (\<lambda>c. c \<le> u) ?cdf) < length ?cdf"
    by (rule length_filter_less)
  then show ?thesis
    by (simp only: searchsorted_right_def len)
qed

lemma choice_p_eq:
  assumes "a \<noteq> []" "length p = length a" "\<not> list_ex (\<lambda>x. x < 0) p"
    "\<bar>sum_list p - 1\<bar> \<le> atol" "0 \<le> m"
  shows "choice_p a m p g =
     Inr (map (\<lambda>r. a ! searchsorted_right (map (\<lambda>c. c / last (cumsum p)) (cumsum p))
                     (to_random_sample r)) (stake (nat m) g), sdrop (nat m) g)"
  using assms by (simp add: choice_p_def Let_def comp_def)

lemma choice_p_rejects:
  "atol < \<bar>sum_list p - 1\<bar> \<Longrightarrow> choice_p a m p g = Inl ValueError"
  by (simp add: choice_p_def)

lemma choice_p_member:
  assumes "a \<noteq> []" "length p = length a" "\<bar>sum_list p - 1\<bar> \<le> atol"
  shows "a ! searchsorted_right (map (\<lambda>c. c / last (cumsum p)) (cumsum p)) (to_random_sample r)
           \<in> set a"
proof -
  have "p \<noteq> []" using assms(1,2) by auto
  moreover have "atol < 1" by (simp add: atol_def)
  then have "0 < sum_list p"
    using assms(3) by linarith
  moreover note to_random_sample_range [of r]
  ultimately have "searchsorted_right (map (\<lambda>c. c / last (cumsum p)) (cumsum p))
      (to_random_sample r) < length a"
    using searchsorted_position [of p "to_random_sample r"] assms(2) by simp
  then show ?thesis by (rule nth_mem)
qed

text \<open>The column of line 28 on the raw variates.\<close>

lemma amounts_eq:
  "amounts n g = (map (\<lambda>z. \<lfloor>exp (3 + z)\<rfloor> + 5) (stake n g), sdrop n g)"
proof -
  have "astype_int (to_lognormal 3 1 z) = \<lfloor>exp (3 + z)\<rfloor>" for z
    by (simp add: astype_int_def to_lognormal_def)
  then show ?thesis
    by (simp add: amounts_def lognormal_def comp_def)
qed





text \<open>
  The body on a count that is not negative, dates in the range of pandas and a weight
  vector that numpy accepts.
\<close>

lemma date_range_eq:
  assumes "- i8max \<le> 24 * start * 3600000000000" "(24 * start + int n) * 3600000000000 \<le> i8max"
  shows "date_range start n = Inr (map (\<lambda>k. 24 * start + int k) [0..<n])"
  using assms by (simp add: date_range_def)

lemma body_eq:
  assumes "0 \<le> m" "rows df \<noteq> [] \<or> m = 0"
    and "- i8max \<le> 24 * today * 3600000000000" "(24 * today + m) * 3600000000000 \<le> i8max"
    and "length p = 3" "\<not> list_ex (\<lambda>x. x < 0) p" "\<bar>sum_list p - 1\<bar> \<le> atol"
  shows "get_live_donations_data_body p today df m g =
     Inr (merge_left (map (live_event p today df (nat m) g) [0..<nat m])
            (map (\<lambda>d. (donor_id d, name d)) (rows df)),
          sdrop (nat m) (sdrop (nat m) (sdrop (nat m) g)))"
proof -
  have c: "choice (map donor_id (rows df)) m g =
     Inr (map (\<lambda>r. map donor_id (rows df) ! nat (to_randint 0 (int (length (rows df))) r))
            (stake (nat m) g), sdrop (nat m) g)"
    using choice_eq [of m "map donor_id (rows df)" g] assms(1,2) by simp
  have d: "date_range today (nat m) = Inr (map (\<lambda>k. 24 * today + int k) [0..<nat m])"
    using assms(1,3,4) by (intro date_range_eq) simp_all
  have cp: "choice_p campaigns m p g' =
     Inr (map (\<lambda>r. campaigns ! searchsorted_right (map (\<lambda>c. c / last (cumsum p)) (cumsum p))
                     (to_random_sample r)) (stake (nat m) g'), sdrop (nat m) g')" for g'
    using assms(1,5,6,7) by (intro choice_p_eq) (simp_all add: campaigns_def)
  show ?thesis
    by (simp add: get_live_donations_data_body_def live_frame_def c d cp amounts_def lognormal_def Let_def
          del: sdrop_add)
      (auto intro!: arg_cong2 [where f = merge_left]
          simp: live_event_def stake_nth simp del: sdrop_add)
qed

lemma body_error:
  assumes "m < 0 \<or> (rows df = [] \<and> m \<noteq> 0)"
  shows "get_live_donations_data_body p today df m g = Inl ValueError"
  using choice_error [of m "map donor_id (rows df)" g] assms
  by (simp add: get_live_donations_data_body_def live_frame_def)

lemma filter_key_unique:
  assumes "distinct (map fst right)" "k \<in> fst ` set right"
  shows "filter (\<lambda>kv. fst kv = k) right = [(k, the (map_of right k))]"
  using assms
proof (induction right)
  case Nil
  then show ?case by simp
next
  case (Cons kv right)
  show ?case
  proof (cases "fst kv = k")
    case True
    with Cons.prems have "k \<notin> fst ` set right" by auto
    then have "filter (\<lambda>kv. fst kv = k) right = []"
      by (auto simp: filter_empty_conv)
    with True show ?thesis by (cases kv) simp
  next
    case False
    with Cons show ?thesis by (cases kv) auto
  qed
qed


lemma concat_map_single:
  "\<forall>e \<in> set xs. f e = [h e] \<Longrightarrow> concat (map f xs) = map h xs"
  by (induction xs) simp_all

lemma merge_left_unique:
  assumes "distinct (map fst right)" "\<forall>e \<in> set left. event_donor_id e \<in> fst ` set right"
  shows "merge_left left right =
     map (\<lambda>e. event.extend e (donation.fields (map_of right (event_donor_id e)))) left"
  unfolding merge_left_def
proof (rule concat_map_single, rule ballI)
  fix e assume "e \<in> set left"
  with assms(2) have k: "event_donor_id e \<in> fst ` set right" by blast
  then obtain v where v: "map_of right (event_donor_id e) = Some v"
    by (metis domD dom_map_of_conv_image_fst)
  have "filter (\<lambda>kv. fst kv = event_donor_id e) right = [(event_donor_id e, v)]"
    using filter_key_unique [OF assms(1) k] v by simp
  then show "(let ms = filter (\<lambda>kv. fst kv = event_donor_id e) right
        in if ms = [] then [event.extend e (donation.fields None)]
           else map (\<lambda>kv. event.extend e (donation.fields (Some (snd kv)))) ms) =
        [event.extend e (donation.fields (map_of right (event_donor_id e)))]"
    using v by simp
qed


lemma extend_fields [simp]:
  "timestamp (event.extend e x) = timestamp e"
  "amount (event.extend e x) = amount e"
  "campaign (event.extend e x) = campaign e"
  "event_donor_id (event.extend e x) = event_donor_id e"
  by (simp_all add: event.defs)

lemma merge_left_source:
  assumes "d \<in> set (merge_left left right)"
  shows "\<exists>e \<in> set left. timestamp d = timestamp e \<and> amount d = amount e \<and>
           campaign d = campaign e \<and> event_donor_id d = event_donor_id e"
proof -
  from assms obtain e where e: "e \<in> set left"
    and d: "d \<in> set (let ms = filter (\<lambda>kv. fst kv = event_donor_id e) right
        in if ms = [] then [event.extend e (donation.fields None)]
           else map (\<lambda>kv. event.extend e (donation.fields (Some (snd kv)))) ms)"
    unfolding merge_left_def by auto
  from d obtain x where "d = event.extend e x"
    by (auto simp: Let_def split: if_splits)
  with e show ?thesis by auto
qed




text \<open>The amount of every event that the body returns is an entry of the column of line 28.\<close>

lemma body_amounts:
  assumes "get_live_donations_data_body p today df m g = Inr (evs, g')"
  shows "\<forall>e \<in> set evs. amount e \<in> set (fst (amounts (nat m) (sdrop (nat m) g)))"
proof -
  from assms obtain donor_ids g1 where c: "choice (map donor_id (rows df)) m g = Inr (donor_ids, g1)"
    by (auto simp: get_live_donations_data_body_def live_frame_def split: sum.splits)
  have m: "0 \<le> m"
    using c choice_error [of m "map donor_id (rows df)" g] by (cases "m < 0") simp_all
  have g1: "g1 = sdrop (nat m) g"
    using c by (auto simp: choice_def randint_def split: if_splits)
  from assms c obtain ts cs where
    evs: "evs = merge_left (map (\<lambda>i. \<lparr>timestamp = ts ! i, amount = fst (amounts (nat m) g1) ! i,
              campaign = cs ! i, event_donor_id = donor_ids ! i\<rparr>) [0..<nat m])
            (map (\<lambda>d. (donor_id d, name d)) (rows df))"
    by (auto simp: get_live_donations_data_body_def live_frame_def split_beta Let_def split: sum.splits)
  have len: "length (fst (amounts (nat m) g1)) = nat m"
    by (simp add: amounts_eq)
  show ?thesis
  proof
    fix e assume "e \<in> set evs"
    with evs merge_left_source [of e] obtain e0 where
      e0: "e0 \<in> set (map (\<lambda>i. \<lparr>timestamp = ts ! i, amount = fst (amounts (nat m) g1) ! i,
              campaign = cs ! i, event_donor_id = donor_ids ! i\<rparr>) [0..<nat m])"
      and a: "amount e = amount e0"
      by blast
    from e0 obtain i where "i < nat m" "amount e0 = fst (amounts (nat m) g1) ! i" by auto
    with len a show "amount e \<in> set (fst (amounts (nat m) (sdrop (nat m) g)))"
      unfolding g1 by (metis nth_mem)
  qed
qed

text \<open>
  What the body does for a weight vector that numpy accepts, on a donor table that is not
  empty and has pairwise distinct donor ids, for a positive count within the range of
  dates: exactly that many events, ids of the table, campaigns out of the three names,
  hourly timestamps from midnight of the current date.
\<close>

lemma body_events:
  assumes "rows df \<noteq> []" "distinct (map donor_id (rows df))" "0 < m"
    and "- i8max \<le> 24 * today * 3600000000000" "(24 * today + m) * 3600000000000 \<le> i8max"
    and "length p = 3" "\<not> list_ex (\<lambda>x. x < 0) p" "\<bar>sum_list p - 1\<bar> \<le> atol"
  shows "\<exists>evs g'. get_live_donations_data_body p today df m g = Inr (evs, g') \<and>
     length evs = nat m \<and>
     (\<forall>e \<in> set evs. event_donor_id e \<in> set (map donor_id (rows df)) \<and>
        campaign e \<in> set campaigns) \<and>
     map timestamp evs = map (\<lambda>k. 24 * today + int k) [0..<nat m] \<and>
     sorted_wrt (<) (map timestamp evs)"
proof -
  let ?right = "map (\<lambda>d. (donor_id d, name d)) (rows df)"
  let ?left = "map (live_event p today df (nat m) g) [0..<nat m]"
  have keys: "map fst ?right = map donor_id (rows df)"
    by (simp add: comp_def)
  have ids: "event_donor_id e \<in> set (map donor_id (rows df))" if "e \<in> set ?left" for e
  proof -
    from that obtain i where "e = live_event p today df (nat m) g i" by auto
    then show ?thesis
      using choice_member [of "map donor_id (rows df)" "g !! i"] assms(1)
      by (simp add: live_event_def)
  qed
  have cam: "campaign e \<in> set campaigns" if "e \<in> set ?left" for e
  proof -
    from that obtain i where "e = live_event p today df (nat m) g i" by auto
    then show ?thesis
      using choice_p_member [of campaigns p] assms(6,8)
      by (simp add: live_event_def campaigns_def)
  qed
  have d: "distinct (map fst ?right)"
    using assms(2) by (simp only: keys)
  have "fst ` set ?right = set (map donor_id (rows df))"
    using keys by (metis set_map)
  with ids have "\<forall>e \<in> set ?left. event_donor_id e \<in> fst ` set ?right"
    by blast
  from merge_left_unique [OF d this]
  have evs: "merge_left ?left ?right =
      map (\<lambda>e. event.extend e (donation.fields (map_of ?right (event_donor_id e)))) ?left" .
  have live: "get_live_donations_data_body p today df m g =
      Inr (merge_left ?left ?right, sdrop (nat m) (sdrop (nat m) (sdrop (nat m) g)))"
    using assms by (intro body_eq) simp_all
  have len: "length (merge_left ?left ?right) = nat m"
    by (simp add: evs)
  have mem: "\<forall>e \<in> set (merge_left ?left ?right).
      event_donor_id e \<in> set (map donor_id (rows df)) \<and> campaign e \<in> set campaigns"
  proof
    fix e assume "e \<in> set (merge_left ?left ?right)"
    from merge_left_source [OF this] obtain e0 where
      "e0 \<in> set ?left" "event_donor_id e = event_donor_id e0" "campaign e = campaign e0"
      by blast
    with ids [of e0] cam [of e0]
    show "event_donor_id e \<in> set (map donor_id (rows df)) \<and> campaign e \<in> set campaigns"
      by simp
  qed
  have ts: "map timestamp (merge_left ?left ?right) = map (\<lambda>k. 24 * today + int k) [0..<nat m]"
    by (simp add: evs comp_def live_event_def)
  have "sorted_wrt (<) (map timestamp (merge_left ?left ?right))"
    unfolding ts by (simp add: sorted_wrt_map sorted_wrt_upt)
  with live len mem ts show ?thesis
    by blast
qed

text \<open>
  Two events over two donors with the weights 0.5, 0.3 and 0.2: the raw variates 0 and 1
  pick the first and the second donor, \<open>-3\<close> gives the amount \<open>\<lfloor>exp 0\<rfloor> + 5\<close>, and
  0.6 and 0.9 fall in the second and the third interval of the weights.
\<close>

lemma body_example:
  "get_live_donations_data_body [0.5, 0.3, 0.2] 20000
      \<lparr>rows = [\<lparr>donor_id = 1001, name = ''Donor_0'', join_date = 19500, total_donations = 4,
                  total_amount = 60, avg_donation = 15\<rparr>,
                \<lparr>donor_id = 1002, name = ''Donor_1'', join_date = 19500, total_donations = 11,
                  total_amount = 200, avg_donation = 200 / 11\<rparr>],
         segment = None\<rparr> 2
      (0 ## 1 ## - 3 ## - 3 ## 0.6 ## 0.9 ## sconst 0) =
   Inr ([\<lparr>timestamp = 480000, amount = 6, campaign = ''Holiday Drive'', event_donor_id = 1001,
           event_name = Some ''Donor_0''\<rparr>,
         \<lparr>timestamp = 480001, amount = 6, campaign = ''Emergency Fund'', event_donor_id = 1002,
           event_name = Some ''Donor_1''\<rparr>], sconst 0)"
  by (simp add: body_eq i8max_def atol_def numeral_2_eq_2 live_event_def merge_left_def cumsum_def
      to_randint_def to_lognormal_def astype_int_def to_random_sample_def searchsorted_right_def
      campaigns_def event.defs donation.defs)

text \<open>
  The ids have to be distinct: the left merge of line 32 repeats an event for every donor
  row that has its id. And the count has a bound: 2100000 hourly timestamps from day 20000
  end after the last date of pandas.
\<close>

lemma body_duplicate_ids_example:
  "get_live_donations_data_body [0.5, 0.3, 0.2] 20000
      \<lparr>rows = [\<lparr>donor_id = 1001, name = ''Donor_0'', join_date = 19500, total_donations = 4,
                 total_amount = 60, avg_donation = 15\<rparr>,
               \<lparr>donor_id = 1001, name = ''Donor_1'', join_date = 19500, total_donations = 20,
                 total_amount = 200, avg_donation = 10\<rparr>],
        segment = None\<rparr> 1 (0 ## - 3 ## 0 ## sconst 0) =
   Inr ([\<lparr>timestamp = 480000, amount = 6, campaign = ''Summer Appeal'', event_donor_id = 1001,
           event_name = Some ''Donor_0''\<rparr>,
         \<lparr>timestamp = 480000, amount = 6, campaign = ''Summer Appeal'', event_donor_id = 1001,
           event_name = Some ''Donor_1''\<rparr>], sconst 0)"
  by (simp add: body_eq i8max_def atol_def live_event_def merge_left_def cumsum_def
      to_randint_def to_lognormal_def astype_int_def to_random_sample_def searchsorted_right_def
      campaigns_def event.defs donation.defs)

lemma body_out_of_bounds_example:
  "get_live_donations_data_body [0.5, 0.3, 0.2] 20000
      \<lparr>rows = [\<lparr>donor_id = 1001, name = ''Donor_0'', join_date = 19500, total_donations = 4,
                  total_amount = 60, avg_donation = 15\<rparr>,
                \<lparr>donor_id = 1002, name = ''Donor_1'', join_date = 19500, total_donations = 11,
                  total_amount = 200, avg_donation = 200 / 11\<rparr>],
         segment = None\<rparr> 2100000 g = Inl OutOfBoundsDatetime"
  by (simp add: get_live_donations_data_body_def live_frame_def choice_def randint_def date_range_def i8max_def)

text \<open>
  Claim C5 fails on the code. The claim: for a donor table that is not empty and a
  positive count \<open>m\<close>, the function produces exactly \<open>m\<close> events. The function as the
  file has it produces none: whatever the table, the count and the value that the weight
  argument was meant to have, the call fails with \<^verbatim>\<open>SyntaxError\<close>, because line 29
  is part of its text.
\<close>

theorem get_live_donations_data_syntax_error:
  "get_live_donations_data p today df m g = Inl SyntaxError"
  by (simp add: get_live_donations_data_def line_29_def closes_def)

subsection \<open>Rounding\<close>

text \<open>Rounding to the nearest integer stays between the integers around its argument.\<close>

lemma rint_cases: "rint x = \<lfloor>x\<rfloor> \<or> (rint x = \<lfloor>x\<rfloor> + 1 \<and> 1 / 2 \<le> frac x)"
proof (cases "frac x = 1 / 2")
  case True
  then show ?thesis by (simp add: rint_def)
next
  case False
  have "\<lfloor>x + 1 / 2\<rfloor> = (if frac x < 1 / 2 then \<lfloor>x\<rfloor> else \<lfloor>x\<rfloor> + 1)"
    unfolding frac_def by (simp add: floor_eq_iff) linarith
  with False show ?thesis by (auto simp: rint_def)
qed

lemma rint_lower:
  assumes "real_of_int a \<le> x"
  shows "a \<le> rint x"
proof -
  from assms have "a \<le> \<lfloor>x\<rfloor>" by (simp add: le_floor_iff)
  with rint_cases [of x] show ?thesis by auto
qed

lemma rint_upper:
  assumes "x \<le> real_of_int b"
  shows "rint x \<le> b"
proof -
  from rint_cases [of x] show ?thesis
  proof
    assume "rint x = \<lfloor>x\<rfloor>"
    with assms show ?thesis by (simp add: floor_le_iff)
  next
    assume r: "rint x = \<lfloor>x\<rfloor> + 1 \<and> 1 / 2 \<le> frac x"
    then have "x \<noteq> real_of_int b"
      by (metis frac_of_int not_one_le_zero zero_less_divide_1_iff zero_less_numeral leD
          less_eq_real_def order.strict_trans1)
    with assms have "x < real_of_int b" by simp
    then have "\<lfloor>x\<rfloor> < b" by (simp add: floor_less_iff)
    with r show ?thesis by simp
  qed
qed

lemma rint_near: "\<bar>real_of_int (rint x) - x\<bar> \<le> 1 / 2"
proof (cases "frac x = 1 / 2")
  case True
  then show ?thesis unfolding rint_def frac_def by (auto simp: abs_if) 
next
  case False
  then have "rint x = \<lfloor>x + 1 / 2\<rfloor>" by (simp add: rint_def)
  then show ?thesis by linarith
qed


text \<open>It takes an integer at distance one half only when that integer is even.\<close>

lemma rint_half_even:
  assumes "\<bar>real_of_int (rint x) - x\<bar> = 1 / 2"
  shows "even (rint x)"
proof (cases "frac x = 1 / 2")
  case True
  then show ?thesis by (simp add: rint_def)
next
  case False
  then have r: "rint x = \<lfloor>x + 1 / 2\<rfloor>" by (simp add: rint_def)
  define f where "f = \<lfloor>x + 1 / 2\<rfloor>"
  have b: "real_of_int f \<le> x + 1 / 2" "x + 1 / 2 < real_of_int f + 1"
    unfolding f_def by linarith+
  from assms r have "\<bar>real_of_int f - x\<bar> = 1 / 2"
    by (simp add: f_def)
  with b have e: "x = real_of_int f - 1 / 2" by linarith
  then have "\<lfloor>x\<rfloor> = f - 1" by linarith
  with e have "frac x = 1 / 2" by (simp add: frac_def)
  with False show ?thesis by simp
qed

subsection \<open>Nudges\<close>

lemma shuffle_mset:
  "k < length x \<or> k = 0 \<Longrightarrow> mset (fst (shuffle k x g)) = mset x"
proof (induction k arbitrary: x g)
  case 0
  then show ?case by simp
next
  case (Suc k)
  let ?j = "nat (to_randint 0 (int (Suc k) + 1) (shd g))"
  from Suc.prems have k: "Suc k < length x" by simp
  have "0 \<le> to_randint 0 (int (Suc k) + 1) (shd g) \<and>
        to_randint 0 (int (Suc k) + 1) (shd g) < int (Suc k) + 1"
    by (intro to_randint_range) simp
  then have j: "?j < length x" using k by linarith
  have "mset (x[Suc k := x ! ?j, ?j := x ! Suc k]) = mset x"
    using j k by (rule mset_swap)
  moreover have "mset (fst (shuffle k (x[Suc k := x ! ?j, ?j := x ! Suc k]) (stl g))) =
      mset (x[Suc k := x ! ?j, ?j := x ! Suc k])"
    using k by (intro Suc.IH) simp
  ultimately show ?case by (simp add: Let_def)
qed

lemma permutation_mset: "mset (fst (permutation n g)) = mset [0..<n]"
  unfolding permutation_def by (rule shuffle_mset) (cases n; simp)

lemma permutation_props:
  "distinct (fst (permutation n g)) \<and> set (fst (permutation n g)) = {0..<n} \<and>
   length (fst (permutation n g)) = n"
proof -
  have "distinct (fst (permutation n g))"
    using permutation_mset [of n g] by (metis distinct_upt mset_eq_imp_distinct_iff)
  moreover have "set (fst (permutation n g)) = {0..<n}"
    using permutation_mset [of n g] by (metis mset_eq_setD atLeastLessThan_upt)
  moreover have "length (fst (permutation n g)) = n"
    using permutation_mset [of n g] by (metis mset_eq_length length_upt diff_zero)
  ultimately show ?thesis by blast
qed

lemma sample_eq:
  assumes "0 \<le> n" "n \<le> int (length xs)"
  shows "sample xs n g =
     Inr (map (\<lambda>i. (i, xs ! i)) (take (nat n) (fst (permutation (length xs) g))),
          snd (permutation (length xs) g))"
  using assms by (simp add: sample_def split_beta)

lemma sample_error: "n < 0 \<or> int (length xs) < n \<Longrightarrow> sample xs n g = Inl ValueError"
  by (auto simp: sample_def)


lemma nudges_result:
  assumes "0 \<le> k" "k \<le> int (length (rows df))"
  shows "\<exists>chs. length chs = nat k \<and> set chs \<subseteq> set channels \<and>
     get_donation_nudges df k g =
     Inr (map (\<lambda>j.
            \<lparr>nudge_index = take (nat k) (fst (permutation (length (rows df)) g)) ! j,
             nudge_name = name (rows df ! (take (nat k) (fst (permutation (length (rows df)) g)) ! j)),
             nudge_avg_donation =
               avg_donation (rows df ! (take (nat k) (fst (permutation (length (rows df)) g)) ! j)),
             suggested_ask = real_of_int (rint
               (avg_donation (rows df ! (take (nat k) (fst (permutation (length (rows df)) g)) ! j)) * 1.25)),
             suggested_channel = chs ! j\<rparr>) [0..<nat k],
          sdrop (nat k) (snd (permutation (length (rows df)) g)))"
proof -
  let ?g1 = "snd (permutation (length (rows df)) g)"
  let ?chs = "map (\<lambda>r. channels ! nat (to_randint 0 (int (length channels)) r)) (stake (nat k) ?g1)"
  have ch: "channels \<noteq> []" by (simp add: channels_def)
  have c: "choice channels k ?g1 = Inr (?chs, sdrop (nat k) ?g1)"
    using assms(1) ch by (intro choice_eq) simp_all
  have len: "length (take (nat k) (fst (permutation (length (rows df)) g))) = nat k"
    using assms permutation_props [of "length (rows df)" g] by simp
  have "set ?chs \<subseteq> set channels"
    using choice_member [OF ch] by auto
  moreover have "length ?chs = nat k" by simp
  moreover have "get_donation_nudges df k g =
     Inr (map (\<lambda>j.
            \<lparr>nudge_index = take (nat k) (fst (permutation (length (rows df)) g)) ! j,
             nudge_name = name (rows df ! (take (nat k) (fst (permutation (length (rows df)) g)) ! j)),
             nudge_avg_donation =
               avg_donation (rows df ! (take (nat k) (fst (permutation (length (rows df)) g)) ! j)),
             suggested_ask = real_of_int (rint
               (avg_donation (rows df ! (take (nat k) (fst (permutation (length (rows df)) g)) ! j)) * 1.25)),
             suggested_channel = ?chs ! j\<rparr>) [0..<nat k],
          sdrop (nat k) ?g1)"
    unfolding get_donation_nudges_def sample_eq [OF assms] using len
    by (simp add: c del: take_all_iff)
  ultimately show ?thesis by blast
qed

lemma nudges_error:
  assumes "k < 0 \<or> int (length (rows df)) < k"
  shows "get_donation_nudges df k g = Inl ValueError"
  using sample_error [OF assms] by (simp add: get_donation_nudges_def)


text \<open>
  Two nudges over two donors, evaluated: the raw variate 0 swaps the two positions, so the
  second donor comes first; its average 6 gives the ask 7.5, rounded to the even 8, and
  the average 15 of the first donor gives 18.75, rounded to 19; the raw variates 2 and 0
  pick the third and the first channel.
\<close>

lemma nudges_example:
  "get_donation_nudges
      \<lparr>rows = [\<lparr>donor_id = 1001, name = ''Donor_0'', join_date = 19500, total_donations = 4,
                  total_amount = 60, avg_donation = 15\<rparr>,
                \<lparr>donor_id = 1002, name = ''Donor_1'', join_date = 19500, total_donations = 20,
                  total_amount = 120, avg_donation = 6\<rparr>],
         segment = None\<rparr> 2 (0 ## 2 ## 0 ## sconst 0) =
   Inr ([\<lparr>nudge_index = 1, nudge_name = ''Donor_1'', nudge_avg_donation = 6,
           suggested_ask = 8, suggested_channel = ''SMS''\<rparr>,
         \<lparr>nudge_index = 0, nudge_name = ''Donor_0'', nudge_avg_donation = 15,
           suggested_ask = 19, suggested_channel = ''Email''\<rparr>], sconst 0)"
  by (simp add: get_donation_nudges_def sample_def permutation_def choice_def randint_def
      to_randint_def channels_def rint_def frac_def upt_rec numeral_2_eq_2)

text \<open>
  Claim C6. A count above the number of donors fails with
  \<^verbatim>\<open>ValueError\<close>. A count from 0 to the number of donors returns exactly that many
  rows; their index labels are pairwise distinct positions of the donor table, so no donor
  is taken twice; every row carries the name and the average donation of its donor; its
  suggested ask is the average times 1.25 rounded to an integer, that is, an integer at
  most one half away from the product, and the even one of the two when the product lies
  halfway between them; its channel is Email, Targeted Ad or SMS.
\<close>

theorem get_donation_nudges_sample:
  "(int (length (rows df)) < k \<longrightarrow> get_donation_nudges df k g = Inl ValueError) \<and>
   (0 \<le> k \<and> k \<le> int (length (rows df)) \<longrightarrow>
      (\<exists>res g'. get_donation_nudges df k g = Inr (res, g') \<and>
         length res = nat k \<and>
         distinct (map nudge_index res) \<and>
         (\<forall>r \<in> set res.
            nudge_index r < length (rows df) \<and>
            nudge_name r = name (rows df ! nudge_index r) \<and>
            nudge_avg_donation r = avg_donation (rows df ! nudge_index r) \<and>
            (\<exists>a :: int. suggested_ask r = real_of_int a \<and>
               \<bar>real_of_int a - nudge_avg_donation r * 1.25\<bar> \<le> 1 / 2 \<and>
               (\<bar>real_of_int a - nudge_avg_donation r * 1.25\<bar> = 1 / 2 \<longrightarrow> even a)) \<and>
            suggested_channel r \<in> {''Email'', ''Targeted Ad'', ''SMS''})))"
proof (intro conjI impI)
  assume "int (length (rows df)) < k"
  then show "get_donation_nudges df k g = Inl ValueError"
    by (simp add: nudges_error)
next
  assume k: "0 \<le> k \<and> k \<le> int (length (rows df))"
  let ?locs = "take (nat k) (fst (permutation (length (rows df)) g))"
  from k nudges_result [of k df g] obtain chs where
    chs: "length chs = nat k" "set chs \<subseteq> set channels" and
    res: "get_donation_nudges df k g =
     Inr (map (\<lambda>j.
            \<lparr>nudge_index = ?locs ! j,
             nudge_name = name (rows df ! (?locs ! j)),
             nudge_avg_donation = avg_donation (rows df ! (?locs ! j)),
             suggested_ask = real_of_int (rint (avg_donation (rows df ! (?locs ! j)) * 1.25)),
             suggested_channel = chs ! j\<rparr>) [0..<nat k],
          sdrop (nat k) (snd (permutation (length (rows df)) g)))"
    by blast
  let ?res = "fst (projr (get_donation_nudges df k g))"
  have p: "distinct (fst (permutation (length (rows df)) g))"
    "set (fst (permutation (length (rows df)) g)) = {0..<length (rows df)}"
    "length (fst (permutation (length (rows df)) g)) = length (rows df)"
    using permutation_props [of "length (rows df)" g] by simp_all
  have "nat k \<le> length (rows df)"
    using k by linarith
  then have len: "length ?locs = nat k"
    using p(3) by simp
  have idx: "map nudge_index ?res = ?locs"
    using len map_nth [of ?locs] by (simp add: res comp_def)
  have "distinct ?locs"
    using p(1) by (rule distinct_take)
  then have d: "distinct (map nudge_index ?res)"
    by (simp only: idx)
  have inb: "?locs ! j < length (rows df)" if "j < nat k" for j
  proof -
    have "j < length ?locs" using that len by (simp only:)
    then have "?locs ! j \<in> set ?locs" by (rule nth_mem)
    then have "?locs ! j \<in> set (fst (permutation (length (rows df)) g))"
      by (rule in_set_takeD)
    then show ?thesis by (simp add: p(2))
  qed
  have chm: "chs ! j \<in> {''Email'', ''Targeted Ad'', ''SMS''}" if "j < nat k" for j
  proof -
    have "chs ! j \<in> set channels"
      using that chs by (metis nth_mem subsetD)
    then show ?thesis by (simp add: channels_def)
  qed
  have ask: "\<exists>a :: int. real_of_int (rint (x * 1.25)) = real_of_int a \<and>
               \<bar>real_of_int a - x * 1.25\<bar> \<le> 1 / 2 \<and>
               (\<bar>real_of_int a - x * 1.25\<bar> = 1 / 2 \<longrightarrow> even a)" for x
    using rint_near [of "x * 1.25"] rint_half_even [of "x * 1.25"] by blast
  have rows: "\<forall>r \<in> set ?res.
            nudge_index r < length (rows df) \<and>
            nudge_name r = name (rows df ! nudge_index r) \<and>
            nudge_avg_donation r = avg_donation (rows df ! nudge_index r) \<and>
            (\<exists>a :: int. suggested_ask r = real_of_int a \<and>
               \<bar>real_of_int a - nudge_avg_donation r * 1.25\<bar> \<le> 1 / 2 \<and>
               (\<bar>real_of_int a - nudge_avg_donation r * 1.25\<bar> = 1 / 2 \<longrightarrow> even a)) \<and>
            suggested_channel r \<in> {''Email'', ''Targeted Ad'', ''SMS''}"
    using inb chm ask by (auto simp: res)
  have "length ?res = nat k" by (simp add: res)
  moreover have "\<exists>g'. get_donation_nudges df k g = Inr (?res, g')" by (simp add: res)
  ultimately show "\<exists>res g'. get_donation_nudges df k g = Inr (res, g') \<and>
         length res = nat k \<and>
         distinct (map nudge_index res) \<and>
         (\<forall>r \<in> set res.
            nudge_index r < length (rows df) \<and>
            nudge_name r = name (rows df ! nudge_index r) \<and>
            nudge_avg_donation r = avg_donation (rows df ! nudge_index r) \<and>
            (\<exists>a :: int. suggested_ask r = real_of_int a \<and>
               \<bar>real_of_int a - nudge_avg_donation r * 1.25\<bar> \<le> 1 / 2 \<and>
               (\<bar>real_of_int a - nudge_avg_donation r * 1.25\<bar> = 1 / 2 \<longrightarrow> even a)) \<and>
            suggested_channel r \<in> {''Email'', ''Targeted Ad'', ''SMS''})"
    using d rows by blast
qed


text \<open>
  The theorem at the table of the example: the count 3 fails, the count 2 gives two rows,
  with the asks 8 (for 7.5) and 19 (for 18.75).
\<close>

theorem get_donation_nudges_sample_witness:
  "int (length (rows \<lparr>rows = [\<lparr>donor_id = 1001, name = ''Donor_0'', join_date = 19500, total_donations = 4,
                  total_amount = 60, avg_donation = 15\<rparr>,
                \<lparr>donor_id = 1002, name = ''Donor_1'', join_date = 19500, total_donations = 20,
                  total_amount = 120, avg_donation = 6\<rparr>],
         segment = None\<rparr>)) < 3 \<and>
   get_donation_nudges
      \<lparr>rows = [\<lparr>donor_id = 1001, name = ''Donor_0'', join_date = 19500, total_donations = 4,
                  total_amount = 60, avg_donation = 15\<rparr>,
                \<lparr>donor_id = 1002, name = ''Donor_1'', join_date = 19500, total_donations = 20,
                  total_amount = 120, avg_donation = 6\<rparr>],
         segment = None\<rparr> 3 (0 ## 2 ## 0 ## sconst 0) = Inl ValueError \<and>
   (0::int) \<le> 2 \<and>
   2 \<le> int (length (rows \<lparr>rows = [\<lparr>donor_id = 1001, name = ''Donor_0'', join_date = 19500, total_donations = 4,
                  total_amount = 60, avg_donation = 15\<rparr>,
                \<lparr>donor_id = 1002, name = ''Donor_1'', join_date = 19500, total_donations = 20,
                  total_amount = 120, avg_donation = 6\<rparr>],
         segment = None\<rparr>)) \<and>
   (\<exists>res g'. get_donation_nudges
        \<lparr>rows = [\<lparr>donor_id = 1001, name = ''Donor_0'', join_date = 19500, total_donations = 4,
                  total_amount = 60, avg_donation = 15\<rparr>,
                \<lparr>donor_id = 1002, name = ''Donor_1'', join_date = 19500, total_donations = 20,
                  total_amount = 120, avg_donation = 6\<rparr>],
         segment = None\<rparr> 2 (0 ## 2 ## 0 ## sconst 0) = Inr (res, g') \<and>
      length res = 2 \<and> map nudge_index res = [1, 0] \<and> map suggested_ask res = [8, 19] \<and>
      map suggested_channel res = [''SMS'', ''Email''])"
  using get_donation_nudges_sample [of "\<lparr>rows = [\<lparr>donor_id = 1001, name = ''Donor_0'', join_date = 19500, total_donations = 4,
                  total_amount = 60, avg_donation = 15\<rparr>,
                \<lparr>donor_id = 1002, name = ''Donor_1'', join_date = 19500, total_donations = 20,
                  total_amount = 120, avg_donation = 6\<rparr>],
         segment = None\<rparr>" 3 "0 ## 2 ## 0 ## sconst 0"]
    get_donation_nudges_sample [of "\<lparr>rows = [\<lparr>donor_id = 1001, name = ''Donor_0'', join_date = 19500, total_donations = 4,
                  total_amount = 60, avg_donation = 15\<rparr>,
                \<lparr>donor_id = 1002, name = ''Donor_1'', join_date = 19500, total_donations = 20,
                  total_amount = 120, avg_donation = 6\<rparr>],
         segment = None\<rparr>" 2 "0 ## 2 ## 0 ## sconst 0"]
    nudges_example
  by simp

subsection \<open>Churn risk\<close>

lemma to_uniform_range:
  assumes "low \<le> high"
  shows "low \<le> to_uniform low high r \<and> to_uniform low high r \<le> high"
proof -
  have f: "0 \<le> frac r" "frac r \<le> 1"
    using frac_lt_1 [of r] by simp_all
  have "0 \<le> (high - low) * frac r"
    using assms f by simp
  moreover have "(high - low) * frac r \<le> (high - low) * 1"
    using assms f by (intro mult_left_mono) simp_all
  ultimately show ?thesis
    by (simp add: to_uniform_def to_random_sample_def)
qed

lemma score_range:
  "0.7 \<le> np_round (to_uniform 0.7 0.95 r) 2 \<and> np_round (to_uniform 0.7 0.95 r) 2 \<le> 0.95 \<and>
   np_round (to_uniform 0.7 0.95 r) 2 * 100 = real_of_int (rint (to_uniform 0.7 0.95 r * 100))"
proof -
  let ?u = "to_uniform 0.7 0.95 r"
  have u: "0.7 \<le> ?u \<and> ?u \<le> 0.95"
    by (rule to_uniform_range) simp
  have "real_of_int 70 \<le> ?u * 100" using u by simp
  then have lo: "70 \<le> rint (?u * 100)" by (rule rint_lower)
  have "?u * 100 \<le> real_of_int 95" using u by simp
  then have hi: "rint (?u * 100) \<le> 95" by (rule rint_upper)
  from lo hi show ?thesis
    by (simp add: np_round_def)
qed


text \<open>
  The function on a count that is not negative, with the draws written out. Ties of
  \<^verbatim>\<open>sort_values\<close> are in the order of the table here; pandas does not promise one.
\<close>

lemma churn_negative:
  "n < 0 \<Longrightarrow> get_churn_risk_donors today df n g = Inl ValueError"
  by (simp add: get_churn_risk_donors_def Let_def)

lemma churn_eq:
  assumes "0 \<le> n"
  shows "get_churn_risk_donors today df n g =
     (let cands = take (nat n)
            (sort_key total_donations (filter (\<lambda>d. join_date d < today - 180) (rows df)));
          scores = map (\<lambda>r. np_round (to_uniform 0.7 0.95 r) 2) (stake (nat n) g)
      in if cands = [] \<and> 0 < n then
           Inr (map (\<lambda>s. \<lparr>churn_name = None, churn_join_date = None,
                           churn_total_donations = None, churn_risk_score = s,
                           suggested_action = ''Personal Call''\<rparr>) scores, sdrop (nat n) g)
         else if nat n \<noteq> length cands then Inl ValueError
         else Inr (map (\<lambda>ds. \<lparr>churn_name = Some (name (fst ds)),
                                 churn_join_date = Some (join_date (fst ds)),
                                 churn_total_donations = Some (total_donations (fst ds)),
                                 churn_risk_score = snd ds,
                                 suggested_action = ''Personal Call''\<rparr>)
                       (zip cands scores), sdrop (nat n) g))"
  using assms
  by (simp add: get_churn_risk_donors_def head_def uniform_def Let_def comp_def)

lemma churn_too_few:
  assumes "0 \<le> n"
    and "filter (\<lambda>d. join_date d < today - 180) (rows df) \<noteq> []"
    and "length (filter (\<lambda>d. join_date d < today - 180) (rows df)) < nat n"
  shows "get_churn_risk_donors today df n g = Inl ValueError"
proof -
  let ?q = "sort_key total_donations (filter (\<lambda>d. join_date d < today - 180) (rows df))"
  have l: "length ?q = length (filter (\<lambda>d. join_date d < today - 180) (rows df))"
    by simp
  have "?q \<noteq> []" using assms(2) l by (metis length_0_conv)
  moreover have "0 < nat n" using assms(3) by simp
  ultimately have "take (nat n) ?q \<noteq> []" by simp
  moreover have "nat n \<noteq> length (take (nat n) ?q)"
    using assms(3) l by simp
  ultimately show ?thesis
    by (simp add: churn_eq [OF assms(1)] Let_def)
qed

lemma map_on_fst_zip:
  "length xs = length ys \<Longrightarrow> map (\<lambda>x. f (fst x)) (zip xs ys) = map f xs"
  by (induction xs ys rule: list_induct2) simp_all

lemma churn_enough_candidates:
  assumes "0 \<le> n"
    and "nat n \<le> length (filter (\<lambda>d. join_date d < today - 180) (rows df))"
  shows "\<exists>res g'. get_churn_risk_donors today df n g = Inr (res, g') \<and>
     length res = nat n \<and>
     sorted (map (the \<circ> churn_total_donations) res) \<and>
     (\<forall>r \<in> set res.
        0.7 \<le> churn_risk_score r \<and> churn_risk_score r \<le> 0.95 \<and>
        (\<exists>c :: int. churn_risk_score r * 100 = real_of_int c) \<and>
        suggested_action r = ''Personal Call'' \<and>
        (\<exists>d \<in> set (rows df). join_date d < today - 180 \<and>
           churn_name r = Some (name d) \<and> churn_join_date r = Some (join_date d) \<and>
           churn_total_donations r = Some (total_donations d)))"
proof -
  let ?q = "sort_key total_donations (filter (\<lambda>d. join_date d < today - 180) (rows df))"
  let ?cands = "take (nat n) ?q"
  let ?scores = "map (\<lambda>r. np_round (to_uniform 0.7 0.95 r) 2) (stake (nat n) g)"
  let ?row = "\<lambda>ds. \<lparr>churn_name = Some (name (fst ds)),
                     churn_join_date = Some (join_date (fst ds)),
                     churn_total_donations = Some (total_donations (fst ds)),
                     churn_risk_score = snd ds,
                     suggested_action = ''Personal Call''\<rparr>"
  have len: "length ?cands = nat n"
    using assms(2) by simp
  then have ne: "\<not> (?cands = [] \<and> 0 < n)"
    by (metis length_0_conv zero_less_nat_eq less_numeral_extra(3))
  have res: "get_churn_risk_donors today df n g =
      Inr (map ?row (zip ?cands ?scores), sdrop (nat n) g)"
    by (simp only: churn_eq [OF assms(1)] Let_def if_not_P [OF ne] len) simp
  have tds: "map (the \<circ> churn_total_donations) (map ?row (zip ?cands ?scores)) =
      map total_donations ?cands"
  proof -
    have "length ?cands = length ?scores" using len by simp
    from map_on_fst_zip [OF this, of total_donations] show ?thesis
      by (simp add: comp_def)
  qed
  have "sorted (map total_donations ?q)" by simp
  then have "sorted (take (nat n) (map total_donations ?q))" by (rule sorted_wrt_take)
  then have srt: "sorted (map (the \<circ> churn_total_donations) (map ?row (zip ?cands ?scores)))"
    unfolding tds by (simp add: take_map)
  have each: "\<forall>r \<in> set (map ?row (zip ?cands ?scores)).
        0.7 \<le> churn_risk_score r \<and> churn_risk_score r \<le> 0.95 \<and>
        (\<exists>c :: int. churn_risk_score r * 100 = real_of_int c) \<and>
        suggested_action r = ''Personal Call'' \<and>
        (\<exists>d \<in> set (rows df). join_date d < today - 180 \<and>
           churn_name r = Some (name d) \<and> churn_join_date r = Some (join_date d) \<and>
           churn_total_donations r = Some (total_donations d))"
  proof
    fix r assume "r \<in> set (map ?row (zip ?cands ?scores))"
    then obtain d s where ds: "(d, s) \<in> set (zip ?cands ?scores)" and r: "r = ?row (d, s)"
      by auto
    from ds have "d \<in> set ?cands" by (rule set_zip_leftD)
    then have "d \<in> set ?q" by (rule in_set_takeD)
    then have d: "d \<in> set (rows df)" "join_date d < today - 180" by simp_all
    from ds have "s \<in> set ?scores" by (rule set_zip_rightD)
    then obtain x where s: "s = np_round (to_uniform 0.7 0.95 x) 2" by auto
    from score_range [of x] s have
      "0.7 \<le> s" "s \<le> 0.95" "\<exists>c :: int. s * 100 = real_of_int c" by auto
    with d r show "0.7 \<le> churn_risk_score r \<and> churn_risk_score r \<le> 0.95 \<and>
        (\<exists>c :: int. churn_risk_score r * 100 = real_of_int c) \<and>
        suggested_action r = ''Personal Call'' \<and>
        (\<exists>d \<in> set (rows df). join_date d < today - 180 \<and>
           churn_name r = Some (name d) \<and> churn_join_date r = Some (join_date d) \<and>
           churn_total_donations r = Some (total_donations d))"
      by auto
  qed
  have "length (map ?row (zip ?cands ?scores)) = nat n"
    using len by simp
  with res srt each show ?thesis by blast
qed


lemma churn_no_candidates:
  assumes "0 < n" and "filter (\<lambda>d. join_date d < today - 180) (rows df) = []"
  shows "get_churn_risk_donors today df n g =
     Inr (map (\<lambda>r. \<lparr>churn_name = None, churn_join_date = None,
                     churn_total_donations = None,
                     churn_risk_score = np_round (to_uniform 0.7 0.95 r) 2,
                     suggested_action = ''Personal Call''\<rparr>) (stake (nat n) g), sdrop (nat n) g)"
proof -
  have "0 \<le> n" using assms(1) by simp
  from churn_eq [OF this, of today df g] show ?thesis
    using assms by (simp add: Let_def comp_def)
qed

text \<open>
  When no donor qualifies and a positive count is asked for, the result has as many rows
  as the count, none of them a donor.
\<close>

lemma churn_no_candidates_example:
  "get_churn_risk_donors 20000
      \<lparr>rows = [\<lparr>donor_id = 1002, name = ''Donor_1'', join_date = 19900, total_donations = 7,
                 total_amount = 70, avg_donation = 10\<rparr>],
        segment = None\<rparr> 2 (sconst 0) =
   Inr ([\<lparr>churn_name = None, churn_join_date = None, churn_total_donations = None,
           churn_risk_score = 0.7, suggested_action = ''Personal Call''\<rparr>,
         \<lparr>churn_name = None, churn_join_date = None, churn_total_donations = None,
           churn_risk_score = 0.7, suggested_action = ''Personal Call''\<rparr>], sconst 0)"
  by (simp add: churn_no_candidates numeral_2_eq_2 np_round_def to_uniform_def
      to_random_sample_def rint_def)

text \<open>
  One candidate out of two qualifying donors: the one with fewer donations, with the score
  \<open>0.7 + 0.25 * 0.5 = 0.825\<close> rounded to 0.82.
\<close>

lemma churn_example:
  "get_churn_risk_donors 20000
      \<lparr>rows = [\<lparr>donor_id = 1001, name = ''Donor_0'', join_date = 19800, total_donations = 3,
                 total_amount = 40, avg_donation = 40 / 3\<rparr>,
               \<lparr>donor_id = 1002, name = ''Donor_1'', join_date = 19900, total_donations = 7,
                 total_amount = 70, avg_donation = 10\<rparr>,
               \<lparr>donor_id = 1003, name = ''Donor_2'', join_date = 19700, total_donations = 2,
                 total_amount = 90, avg_donation = 45\<rparr>],
        segment = None\<rparr> 1 (0.5 ## sconst 0) =
   Inr ([\<lparr>churn_name = Some ''Donor_2'', churn_join_date = Some 19700,
           churn_total_donations = Some 2, churn_risk_score = 0.82,
           suggested_action = ''Personal Call''\<rparr>], sconst 0)"
  by (simp add: churn_eq np_round_def to_uniform_def to_random_sample_def rint_def frac_def)

text \<open>
  Claim C2 fails on the code. The claim: with fewer qualifying donors than the count, the
  selector returns the qualifying donors and raises nothing. Here one of two donors joined
  more than 180 days ago and the count is the default 5: line 54 assigns five scores as a
  column of a frame of one row, and the function raises \<^verbatim>\<open>ValueError\<close>. (With at
  least as many qualifying donors as the count, the rest of the claim holds:
  \<open>churn_enough_candidates\<close>.)
\<close>

theorem get_churn_risk_donors_too_few:
  "get_churn_risk_donors 20000
      \<lparr>rows = [\<lparr>donor_id = 1001, name = ''Donor_0'', join_date = 19800, total_donations = 3,
                 total_amount = 40, avg_donation = 40 / 3\<rparr>,
               \<lparr>donor_id = 1002, name = ''Donor_1'', join_date = 19900, total_donations = 7,
                 total_amount = 70, avg_donation = 10\<rparr>],
        segment = None\<rparr> 5 (sconst 0) = Inl ValueError"
  by (rule churn_too_few) simp_all


subsection \<open>Frames as objects\<close>

text \<open>An object that exists has an address below \<open>fresh\<close>.\<close>

lemma allocated_below_fresh: "store_ok s \<Longrightarrow> objs s a = Some t \<Longrightarrow> a < fresh s"
  unfolding store_ok_def by (metis not_le option.distinct(1))

text \<open>
  \<^verbatim>\<open>get_churn_risk_donors\<close>, \<^verbatim>\<open>get_donation_nudges\<close> and the body of
  \<^verbatim>\<open>get_live_donations_data\<close> write to objects that they have made themselves:
  every object that existed before the call is as it was, whatever the call returns or
  raises, and for every order that \<open>argsort\<close> gives to the candidates.
\<close>

lemma churn_call_frame:
  assumes "store_ok s" "b < fresh s"
  shows "objs (snd (get_churn_risk_donors_call argsort today a n g s)) b = objs s b"
  using assms
  by (auto simp: get_churn_risk_donors_call_def alloc_def assign_def Let_def split_beta
      split: option.splits table.splits sum.splits)

lemma nudges_call_frame:
  assumes "store_ok s" "b < fresh s"
  shows "objs (snd (get_donation_nudges_call a n g s)) b = objs s b"
  using assms
  by (auto simp: get_donation_nudges_call_def alloc_def assign_def Let_def split_beta
      split: option.splits table.splits sum.splits)

lemma live_body_call_frame:
  assumes "store_ok s" "b < fresh s"
  shows "objs (snd (get_live_donations_data_body_call p today a n g s)) b = objs s b"
  using assms
  by (auto simp: get_live_donations_data_body_call_def alloc_def Let_def split_beta
      split: option.splits table.splits sum.splits)

text \<open>
  \<^verbatim>\<open>get_live_donations_data\<close> as the file has it raises before its first statement,
  and leaves the whole store as it was.
\<close>

lemma live_call_unchanged:
  "get_live_donations_data_call p today a n g s = (Inl SyntaxError, s)"
  by (simp add: get_live_donations_data_call_def line_29_def closes_def)

text \<open>
  \<^verbatim>\<open>get_donor_segments\<close> writes one existing object, the donor table, and there
  only the column \<^verbatim>\<open>segment\<close>; a table that already holds the labels of the day
  is as it was.
\<close>

lemma segments_call_frame:
  assumes "store_ok s" "objs s a = Some (Donors df)"
  shows "objs (snd (get_donor_segments_call today a s)) a =
           Some (Donors (df\<lparr>segment := Some (map (np_select (conditions today) choices ''At-Risk Donors'') (rows df))\<rparr>))"
    and "b < fresh s \<Longrightarrow> b \<noteq> a \<Longrightarrow> objs (snd (get_donor_segments_call today a s)) b = objs s b"
  using assms allocated_below_fresh [OF assms]
  by (auto simp: get_donor_segments_call_def alloc_def assign_def Let_def split_beta)

lemma segments_call_idempotent:
  assumes "store_ok s" "objs s a = Some (Donors df)"
    and "segment df = Some (map (np_select (conditions today) choices ''At-Risk Donors'') (rows df))"
  shows "objs (snd (get_donor_segments_call today a s)) a = Some (Donors df)"
proof -
  have "df\<lparr>segment := Some (map (np_select (conditions today) choices ''At-Risk Donors'')
      (rows df))\<rparr> = df"
    using assms(3) by simp
  with segments_call_frame(1) [OF assms(1,2), of today] show ?thesis
    by simp
qed

text \<open>
  The calls compute what the functions on tables compute. For the churn list this needs
  \<open>sort_values\<close> with the stable \<open>argsort\<close>, which is \<open>sort_key\<close>.
\<close>

lemma insort_key_cong_on:
  assumes "f x = g x" and "\<And>y. y \<in> set ys \<Longrightarrow> f y = g y"
  shows "insort_key f x ys = insort_key g x ys"
  using assms by (induction ys) simp_all

lemma sort_key_cong_on:
  assumes "\<And>x. x \<in> set xs \<Longrightarrow> f x = g x"
  shows "sort_key f xs = sort_key g xs"
  using assms
proof (induction xs)
  case Nil
  then show ?case by simp
next
  case (Cons x xs)
  then have "sort_key f xs = sort_key g xs" by simp
  moreover have "insort_key f x (sort_key g xs) = insort_key g x (sort_key g xs)"
    by (rule insort_key_cong_on) (simp_all add: Cons.prems)
  ultimately show ?case by simp
qed

lemma map_sort_key:
  "map h (sort_key (\<lambda>z. f (h z)) zs) = sort_key f (map h zs)"
proof (induction zs)
  case Nil
  then show ?case by simp
next
  case (Cons z zs)
  have "map h (insort_key (\<lambda>z. f (h z)) z ys) = insort_key f (h z) (map h ys)" for ys
    by (induction ys) simp_all
  with Cons show ?case by simp
qed

lemma sort_values_stable: "sort_values argsort_stable f xs = sort_key f xs"
proof -
  define zs where "zs = zip [0..<length xs] (map f xs)"
  have k: "snd z = f (xs ! fst z)" if "z \<in> set zs" for z
    using that unfolding zs_def by (auto simp: set_zip)
  have "sort_values argsort_stable f xs = map (\<lambda>z. xs ! fst z) (sort_key snd zs)"
    by (simp add: sort_values_def argsort_stable_def zs_def comp_def)
  also have "sort_key snd zs = sort_key (\<lambda>z. f (xs ! fst z)) zs"
    by (rule sort_key_cong_on) (rule k)
  also have "map (\<lambda>z. xs ! fst z) (sort_key (\<lambda>z. f (xs ! fst z)) zs) =
      sort_key f (map (\<lambda>z. xs ! fst z) zs)"
    by (rule map_sort_key)
  also have "map (\<lambda>z. xs ! fst z) zs = map ((!) xs) (map fst zs)"
    by (simp add: comp_def)
  also have "map fst zs = [0..<length xs]"
    unfolding zs_def by (rule map_fst_zip) simp
  also have "map ((!) xs) [0..<length xs] = xs"
    by (rule map_nth)
  finally show ?thesis .
qed

lemma map_snd_sort_key:
  "map snd (sort_key (\<lambda>kd. f (snd kd)) zs) = sort_key f (map snd zs)"
proof (induction zs)
  case Nil
  then show ?case by simp
next
  case (Cons z zs)
  have "map snd (insort_key (\<lambda>kd. f (snd kd)) z ys) = insort_key f (snd z) (map snd ys)" for ys
    by (induction ys) simp_all
  with Cons show ?case by simp
qed

lemma map_snd_candidates:
  "map snd (take k (sort_key (\<lambda>kd. f (snd kd))
       (filter (\<lambda>kd. P (snd kd)) (zip [0..<length xs] xs)))) =
   take k (sort_key f (filter P xs))"
proof -
  have "filter P (map snd zs) = map snd (filter (\<lambda>kd. P (snd kd)) zs)" for zs :: "(nat \<times> 'a) list"
    by (simp add: filter_map comp_def)
  from this [of "zip [0..<length xs] xs"]
  have "map snd (filter (\<lambda>kd. P (snd kd)) (zip [0..<length xs] xs)) = filter P xs"
    by simp
  then have "map snd (sort_key (\<lambda>kd. f (snd kd))
       (filter (\<lambda>kd. P (snd kd)) (zip [0..<length xs] xs))) = sort_key f (filter P xs)"
    by (simp add: map_snd_sort_key)
  then show ?thesis
    by (simp add: take_map [symmetric])
qed

lemma churn_of_enlarged:
  "map churn_of (zip (map (\<lambda>k. (k, None)) [0..<length scores]) scores) =
   map (\<lambda>s. \<lparr>churn_name = None, churn_join_date = None, churn_total_donations = None,
              churn_risk_score = s, suggested_action = ''Personal Call''\<rparr>) scores"
proof -
  have "map churn_of (zip (map (\<lambda>k. (k, None)) [0..<length scores]) scores) =
      map ((\<lambda>s. \<lparr>churn_name = None, churn_join_date = None, churn_total_donations = None,
                   churn_risk_score = s, suggested_action = ''Personal Call''\<rparr>) \<circ> snd)
        (zip [0..<length scores] scores)"
    by (simp add: zip_map1 churn_of_def split_beta comp_def)
  also have "\<dots> = map (\<lambda>s. \<lparr>churn_name = None, churn_join_date = None,
                 churn_total_donations = None, churn_risk_score = s,
                 suggested_action = ''Personal Call''\<rparr>)
               (map snd (zip [0..<length scores] scores))"
    by (simp only: map_map)
  also have "map snd (zip [0..<length scores] scores) = scores"
    by (rule map_snd_zip) simp
  finally show ?thesis .
qed

lemma churn_of_zip:
  "map churn_of (zip (map (\<lambda>kd. (fst kd, Some (snd kd))) cz) scores) =
   map (\<lambda>ds. \<lparr>churn_name = Some (name (fst ds)),
              churn_join_date = Some (join_date (fst ds)),
              churn_total_donations = Some (total_donations (fst ds)),
              churn_risk_score = snd ds, suggested_action = ''Personal Call''\<rparr>)
     (zip (map snd cz) scores)"
  by (simp add: zip_map1 churn_of_def split_beta)

lemma churn_via_set_scores:
  assumes "0 \<le> n"
  shows "get_churn_risk_donors today df n g =
     (case set_scores
             (map (\<lambda>kd. (fst kd, Some (snd kd)))
                (head n (sort_key (\<lambda>kd. total_donations (snd kd))
                   (filter (\<lambda>kd. join_date (snd kd) < today - 180)
                      (zip [0..<length (rows df)] (rows df))))))
             (map (\<lambda>u. np_round u 2) (fst (uniform 0.7 0.95 (nat n) g))) of
        Inl e \<Rightarrow> Inl e
      | Inr scored \<Rightarrow> Inr (map churn_of scored, snd (uniform 0.7 0.95 (nat n) g)))"
proof -
  define cz where "cz = take (nat n) (sort_key (\<lambda>kd. total_donations (snd kd))
     (filter (\<lambda>kd. join_date (snd kd) < today - 180) (zip [0..<length (rows df)] (rows df))))"
  define scores where "scores = map (\<lambda>r. np_round (to_uniform 0.7 0.95 r) 2) (stake (nat n) g)"
  define cands where "cands = take (nat n) (sort_key total_donations
     (filter (\<lambda>d. join_date d < today - 180) (rows df)))"
  have c: "map snd cz = cands"
    unfolding cz_def cands_def by (rule map_snd_candidates)
  have hd: "head n (sort_key (\<lambda>kd. total_donations (snd kd))
       (filter (\<lambda>kd. join_date (snd kd) < today - 180) (zip [0..<length (rows df)] (rows df)))) = cz"
    using assms by (simp add: head_def cz_def)
  have un: "map (\<lambda>u. np_round u 2) (fst (uniform 0.7 0.95 (nat n) g)) = scores"
    "snd (uniform 0.7 0.95 (nat n) g) = sdrop (nat n) g"
    by (simp_all add: uniform_def scores_def)
  have ls: "length scores = nat n"
    by (simp add: scores_def)
  have sc: "scores \<noteq> [] \<longleftrightarrow> 0 < n"
    using ls by (cases scores) auto
  have l: "length cands = length cz"
    unfolding c [symmetric] by simp
  have e: "cands = [] \<longleftrightarrow> cz = []"
    unfolding c [symmetric] by simp
  have pure: "get_churn_risk_donors today df n g =
     (if cands = [] \<and> 0 < n then
        Inr (map (\<lambda>s. \<lparr>churn_name = None, churn_join_date = None, churn_total_donations = None,
                       churn_risk_score = s, suggested_action = ''Personal Call''\<rparr>) scores,
             sdrop (nat n) g)
      else if nat n \<noteq> length cands then Inl ValueError
      else Inr (map (\<lambda>ds. \<lparr>churn_name = Some (name (fst ds)),
                           churn_join_date = Some (join_date (fst ds)),
                           churn_total_donations = Some (total_donations (fst ds)),
                           churn_risk_score = snd ds, suggested_action = ''Personal Call''\<rparr>)
                  (zip cands scores), sdrop (nat n) g))"
    unfolding cands_def scores_def by (simp only: churn_eq [OF assms] Let_def)
  have st: "set_scores (map (\<lambda>kd. (fst kd, Some (snd kd))) cz) scores =
     (if cz = [] \<and> 0 < n then Inr (zip (map (\<lambda>k. (k, None)) [0..<length scores]) scores)
      else if nat n \<noteq> length cz then Inl ValueError
      else Inr (zip (map (\<lambda>kd. (fst kd, Some (snd kd))) cz) scores))"
    using sc ls by (simp add: set_scores_def)
  show ?thesis
    unfolding hd un pure st
    by (simp add: e l churn_of_enlarged churn_of_zip c)
qed

lemma churn_call_refines:
  assumes "objs s a = Some (Donors df)"
  shows "case fst (get_churn_risk_donors_call argsort_stable today a n g s) of
           Inl e \<Rightarrow> get_churn_risk_donors today df n g = Inl e
         | Inr rg \<Rightarrow> \<exists>res. objs (snd (get_churn_risk_donors_call argsort_stable today a n g s)) (fst rg) =
                            Some (Churn res) \<and>
                          get_churn_risk_donors today df n g = Inr (res, snd rg)"
proof (cases "n < 0")
  case True
  then show ?thesis
    using assms by (simp add: get_churn_risk_donors_call_def churn_negative split_beta Let_def)
next
  case False
  then have n: "0 \<le> n" by simp
  show ?thesis
    using assms False
    by (simp add: churn_via_set_scores [OF n] get_churn_risk_donors_call_def sort_values_stable alloc_def assign_def
        Let_def split_beta split: sum.splits)
qed

lemma nudges_call_refines:
  assumes "objs s a = Some (Donors df)"
  shows "case fst (get_donation_nudges_call a n g s) of
           Inl e \<Rightarrow> get_donation_nudges df n g = Inl e
         | Inr rg \<Rightarrow> \<exists>res. objs (snd (get_donation_nudges_call a n g s)) (fst rg) =
                            Some (Nudges res) \<and>
                          get_donation_nudges df n g = Inr (res, snd rg)"
  using assms
  by (simp add: get_donation_nudges_call_def get_donation_nudges_def alloc_def assign_def
      Let_def split_beta split: sum.splits)

lemma segments_call_refines:
  assumes "objs s a = Some (Donors df)" "store_ok s"
  shows "\<exists>r. fst (get_donor_segments_call today a s) = Inr r \<and>
     objs (snd (get_donor_segments_call today a s)) r = Some (Counts (fst (get_donor_segments today df))) \<and>
     objs (snd (get_donor_segments_call today a s)) a = Some (Donors (snd (get_donor_segments today df)))"
  using assms allocated_below_fresh [OF assms(2,1)]
  by (simp add: get_donor_segments_call_def get_donor_segments_def alloc_def assign_def
      Let_def split_beta)

lemma live_body_call_refines:
  assumes "objs s a = Some (Donors df)"
  shows "case fst (get_live_donations_data_body_call p today a n g s) of
           Inl e \<Rightarrow> get_live_donations_data_body p today df n g = Inl e
         | Inr rg \<Rightarrow> \<exists>res. objs (snd (get_live_donations_data_body_call p today a n g s)) (fst rg) =
                            Some (Donations res) \<and>
                          get_live_donations_data_body p today df n g = Inr (res, snd rg)"
  using assms
  by (simp add: get_live_donations_data_body_call_def get_live_donations_data_body_def alloc_def
      Let_def split_beta split: sum.splits)

text \<open>
  Claim C8. Every field of every donor record is after a call of each of the four
  functions what it was before: the donor table that the caller passes is the same
  object with the same content after \<^verbatim>\<open>get_churn_risk_donors\<close>,
  \<^verbatim>\<open>get_donation_nudges\<close> and \<^verbatim>\<open>get_live_donations_data\<close>; after
  \<^verbatim>\<open>get_donor_segments\<close> it has the same rows (the six generated fields of every
  donor, their number and their order), next to the column of labels that line 43
  attaches.
\<close>

theorem donor_records_unchanged:
  assumes "store_ok s" and "objs s a = Some (Donors df)"
  shows "objs (snd (get_churn_risk_donors_call argsort today a n g s)) a = Some (Donors df) \<and>
     objs (snd (get_donation_nudges_call a n g s)) a = Some (Donors df) \<and>
     objs (snd (get_live_donations_data_call p today a n g s)) a = Some (Donors df) \<and>
     (\<exists>df'. objs (snd (get_donor_segments_call today a s)) a = Some (Donors df') \<and>
        rows df' = rows df \<and>
        segment df' =
          Some (map (np_select (conditions today) choices ''At-Risk Donors'') (rows df)))"
proof -
  from assms have a: "a < fresh s" by (rule allocated_below_fresh)
  have "objs (snd (get_churn_risk_donors_call argsort today a n g s)) a = objs s a"
    using assms(1) a by (rule churn_call_frame)
  moreover have "objs (snd (get_donation_nudges_call a n g s)) a = objs s a"
    using assms(1) a by (rule nudges_call_frame)
  moreover have "objs (snd (get_live_donations_data_call p today a n g s)) a = objs s a"
    by (simp add: live_call_unchanged)
  moreover have "objs (snd (get_donor_segments_call today a s)) a =
      Some (Donors (df\<lparr>segment := Some (map (np_select (conditions today) choices
         ''At-Risk Donors'') (rows df))\<rparr>))"
    using assms by (rule segments_call_frame(1))
  ultimately show ?thesis
    using assms(2) by simp
qed

theorem donor_records_unchanged_witness:
  "\<exists>df s. df = \<lparr>rows = [\<lparr>donor_id = 1001, name = ''Donor_0'', join_date = 19500, total_donations = 4,
                  total_amount = 60, avg_donation = 15\<rparr>,
                \<lparr>donor_id = 1002, name = ''Donor_1'', join_date = 19500, total_donations = 20,
                  total_amount = 200, avg_donation = 10\<rparr>],
         segment = None\<rparr> \<and>
     s = \<lparr>objs = [0 \<mapsto> Donors df], fresh = 1\<rparr> \<and>
     store_ok s \<and> objs s 0 = Some (Donors df) \<and>
     fst (get_churn_risk_donors_call argsort_stable 20000 0 1 (sconst 0) s) = Inr (3, sconst 0) \<and>
     objs (snd (get_churn_risk_donors_call argsort_stable 20000 0 1 (sconst 0) s)) 3 =
       Some (Churn [\<lparr>churn_name = Some ''Donor_0'', churn_join_date = Some 19500,
          churn_total_donations = Some 4, churn_risk_score = 0.7,
          suggested_action = ''Personal Call''\<rparr>]) \<and>
     objs (snd (get_churn_risk_donors_call argsort_stable 20000 0 1 (sconst 0) s)) 0 =
       Some (Donors df) \<and>
     fst (get_donation_nudges_call 0 1 (sconst 0) s) = Inr (3, sconst 0) \<and>
     objs (snd (get_donation_nudges_call 0 1 (sconst 0) s)) 3 =
       Some (Nudges [\<lparr>nudge_index = 1, nudge_name = ''Donor_1'', nudge_avg_donation = 10,
          suggested_ask = 12, suggested_channel = ''Email''\<rparr>]) \<and>
     objs (snd (get_donation_nudges_call 0 1 (sconst 0) s)) 0 = Some (Donors df) \<and>
     fst (get_live_donations_data_call [0.5, 0.3, 0.2] 20000 0 1 (sconst 0) s) =
       Inl SyntaxError \<and>
     objs (snd (get_live_donations_data_call [0.5, 0.3, 0.2] 20000 0 1 (sconst 0) s)) 0 =
       Some (Donors df) \<and>
     fst (get_donor_segments_call 20000 0 s) = Inr 1 \<and>
     objs (snd (get_donor_segments_call 20000 0 s)) 1 =
       Some (Counts [(''At-Risk Donors'', 1), (champions, 1)]) \<and>
     (\<exists>df'. objs (snd (get_donor_segments_call 20000 0 s)) 0 = Some (Donors df') \<and>
        rows df' = rows df \<and> segment df' = Some [''At-Risk Donors'', champions])"
proof -
  define df where "df = \<lparr>rows = [\<lparr>donor_id = 1001, name = ''Donor_0'', join_date = 19500, total_donations = 4,
                  total_amount = 60, avg_donation = 15\<rparr>,
                \<lparr>donor_id = 1002, name = ''Donor_1'', join_date = 19500, total_donations = 20,
                  total_amount = 200, avg_donation = 10\<rparr>],
         segment = None\<rparr>"
  define s where "s = \<lparr>objs = [0 \<mapsto> Donors df], fresh = 1\<rparr>"
  have ok: "store_ok s"
    by (simp add: s_def store_ok_def)
  have d: "objs s 0 = Some (Donors df)"
    by (simp add: s_def)
  have labels: "map (np_select (conditions 20000) choices ''At-Risk Donors'') (rows df) =
      [''At-Risk Donors'', champions]"
    by (simp add: df_def np_select_rules)
  have churn: "fst (get_churn_risk_donors_call argsort_stable 20000 0 1 (sconst 0) s) =
        Inr (3, sconst 0)"
      "objs (snd (get_churn_risk_donors_call argsort_stable 20000 0 1 (sconst 0) s)) 3 =
       Some (Churn [\<lparr>churn_name = Some ''Donor_0'', churn_join_date = Some 19500,
          churn_total_donations = Some 4, churn_risk_score = 0.7,
          suggested_action = ''Personal Call''\<rparr>])"
    by (simp_all add: s_def df_def get_churn_risk_donors_call_def sort_values_def
        argsort_stable_def set_scores_def churn_of_def head_def uniform_def alloc_def assign_def
        np_round_def to_uniform_def to_random_sample_def rint_def frac_def)
  have nudges: "fst (get_donation_nudges_call 0 1 (sconst 0) s) = Inr (3, sconst 0)"
      "objs (snd (get_donation_nudges_call 0 1 (sconst 0) s)) 3 =
       Some (Nudges [\<lparr>nudge_index = 1, nudge_name = ''Donor_1'', nudge_avg_donation = 10,
          suggested_ask = 12, suggested_channel = ''Email''\<rparr>])"
    by (simp_all add: s_def df_def get_donation_nudges_call_def sample_def permutation_def
        choice_def randint_def to_randint_def channels_def rint_def frac_def upt_rec
        numeral_2_eq_2 alloc_def assign_def)
  have live: "fst (get_live_donations_data_call [0.5, 0.3, 0.2] 20000 0 1 (sconst 0) s) =
       Inl SyntaxError"
    by (simp add: get_live_donations_data_call_def line_29_def closes_def)
  have segments: "fst (get_donor_segments_call 20000 0 s) = Inr 1"
      "objs (snd (get_donor_segments_call 20000 0 s)) 1 =
         Some (Counts [(''At-Risk Donors'', 1), (champions, 1)])"
    using labels
    by (simp_all add: s_def get_donor_segments_call_def alloc_def assign_def value_counts_def
        champions_def)
  note t = donor_records_unchanged [OF ok d, of argsort_stable 20000 1 "sconst 0"
      "[0.5, 0.3, 0.2]", unfolded labels]
  note facts = ok d churn t [THEN conjunct1] nudges t [THEN conjunct2, THEN conjunct1] live
    t [THEN conjunct2, THEN conjunct2, THEN conjunct1] segments
    t [THEN conjunct2, THEN conjunct2, THEN conjunct2]
  show ?thesis
    by (rule exI, rule exI, intro conjI, rule refl, rule refl)
      (rule facts [unfolded s_def df_def])+
qed


subsection \<open>Line 29\<close>

text \<open>With the opening bracket of the weight list restored, the brackets of the line match.\<close>

lemma line_29_repaired:
  "nesting False ''{''
     ([CHR 0x27] @ ''campaign'' @ [CHR 0x27] @ '': np.random.choice(['' @
      [CHR 0x27] @ ''Summer Appeal'' @ [CHR 0x27] @ '', '' @
      [CHR 0x27] @ ''Holiday Drive'' @ [CHR 0x27] @ '', '' @
      [CHR 0x27] @ ''Emergency Fund'' @ [CHR 0x27] @
      ''], num_donations, p=[0.5, 0.3, 0.2]),'') = Inr ''{''"
  by (simp add: closes_def)


text \<open>
  Claim C1 fails on the code. The claim: the campaign of each event is drawn with the
  weights 0.5, 0.3 and 0.2. Line 29 as the file has it, scanned inside the dictionary
  display that line 26 opens, has a closing square bracket where a parenthesis is the
  innermost open bracket; Python rejects the file with \<^verbatim>\<open>SyntaxError\<close> before any
  function is defined.
\<close>

theorem line_29_rejected: "nesting False ''{'' line_29 = Inl SyntaxError"
  by (simp add: line_29_def closes_def)


end
